theory Spec2Isabelle
  imports Complex_Main "HOL-Library.Char_ord" "HOL-Library.List_Lexorder" "HOL-Library.AList"
begin

section \<open>Values of the rule document and of the raw table\<close>

text \<open>
  A rule document is what the YAML loader returns: nested Python values. A rule is a
  Python dict from field names to such values; dicts keep insertion order, so a dict is
  an association list with distinct keys. Python strings are modelled as \<open>string\<close>,
  one \<open>char\<close> per code point (code points below 256).
\<close>

datatype yaml =
    YNull
  | YBool bool
  | YInt int
  | YStr string
  | YList "yaml list"
  | YMap "(string \<times> yaml) list"

type_synonym rule = "(string \<times> yaml) list"

text \<open>
  A cell of a pandas DataFrame: a missing value, a finite number, an infinity or a
  string. A number is a Python float, a double: a finite one is given by its value, a
  real. The arithmetic of the source on numbers rounds its exact result to a double
  (\<open>fl\<close> below), and what is proved of it is proved for every real, so for every
  double. The sign of a zero is not kept.
\<close>

datatype cell = NaN | Num real | PosInf | NegInf | Str string

type_synonym row = "(string \<times> cell) list"

type_synonym series = "(string \<times> cell) list"

record dataframe =
  df_index :: "cell list"
  df_columns :: "string list"
  df_rows :: "row list"

text \<open>
  Every exception of the source is a value. The first five are the messages of
  \<open>logger.log_and_raise\<close> in \<open>_check_rules\<close>, with the rule name; the next five are
  exceptions of Python and of the \<open>jsonlines\<close> reader; the last three are the failures
  named by the specification for the parts of the repository that the source only calls.
\<close>

datatype error =
    LackOfCategory string
  | LackOfMetrics string
  | LackOfFunction string
  | InvalidFunctionName string
  | AggregateMustBeBool string
  | TypeError
  | ValueError
  | KeyError
  | InvalidLineError
  | UnicodeDecodeError
  | NoMatchingMetrics string
  | UnsupportedStatistic string
  | EmptyColumnReduction string string "int option"

datatype log_entry =
    InvalidRawDataPath
  | InvalidRawDataFormat error
  | GetRulesFailed
  | ParseRulesFailed error
  | UnsupportedOutputFormat
  | OutputResultsTo string
  | RunFailed error

text \<open>
  The document handed to \<open>_parse_rules\<close>: a falsy value (\<open>None\<close>, an empty dict), a
  document in which the lookup \<open>rules['superbench']['rules']\<close> raises, with the
  exception raised (KeyError when a key is missing, TypeError when the value under
  \<open>superbench\<close> cannot be subscripted, as \<open>None\<close>), or the mapping from rule names to
  rules found there.
\<close>

datatype rules_file =
    NoRules
  | BadShape error
  | Rules "(string \<times> rule) list"

section \<open>Python helpers\<close>

definition is_digit :: "char \<Rightarrow> bool" where
  "is_digit c = (c \<in> set ''0123456789'')"

text \<open>\<open>re.fullmatch(r'p\d\d?', s)\<close>: the letter p followed by one or two digits.\<close>

definition fullmatch_pdd :: "string \<Rightarrow> bool" where
  "fullmatch_pdd s =
     (case s of
        c # d # r \<Rightarrow>
          c = CHR ''p'' \<and> is_digit d \<and>
          (case r of [] \<Rightarrow> True | [e] \<Rightarrow> is_digit e | _ \<Rightarrow> False)
      | _ \<Rightarrow> False)"

text \<open>
  \<open>re.search(r'\(.*\)', s)\<close>: an opening parenthesis followed, with no line break in
  between (the dot does not match a newline), by a closing parenthesis.
\<close>

fun search_paren :: "string \<Rightarrow> bool" where
  "search_paren [] = False"
| "search_paren (c # s) =
     (if c = CHR ''('' \<and> CHR '')'' \<in> set (takeWhile (\<lambda>d. d \<noteq> CHR 0x0A) s) then True
      else search_paren s)"

text \<open>Python truthiness of a loaded value.\<close>

fun truthy :: "yaml \<Rightarrow> bool" where
  "truthy YNull = False"
| "truthy (YBool b) = b"
| "truthy (YInt n) = (n \<noteq> 0)"
| "truthy (YStr s) = (s \<noteq> [])"
| "truthy (YList l) = (l \<noteq> [])"
| "truthy (YMap m) = (m \<noteq> [])"

text \<open>\<open>s.strip('p')\<close> removes every leading and every trailing p.\<close>

definition strip_chars :: "char list \<Rightarrow> string \<Rightarrow> string" where
  "strip_chars cs s =
     rev (dropWhile (\<lambda>c. c \<in> set cs) (rev (dropWhile (\<lambda>c. c \<in> set cs) s)))"

definition strip_p :: "string \<Rightarrow> string" where
  "strip_p s = strip_chars [CHR ''p''] s"

text \<open>
  \<open>int(s)\<close> on a string: surrounding whitespace is dropped, then an optional sign, then
  decimal digits, where single underscores may separate digits. Anything else raises
  ValueError (\<open>None\<close>).
\<close>

definition py_whitespace :: "char list" where
  "py_whitespace =
     [CHR 0x09, CHR 0x0A, CHR 0x0B, CHR 0x0C, CHR 0x0D, CHR 0x1C, CHR 0x1D, CHR 0x1E,
      CHR 0x1F, CHR 0x20, CHR 0x85, CHR 0xA0]"

definition digit_val :: "char \<Rightarrow> nat" where
  "digit_val c = of_char c - 48"

fun parse_digits :: "bool \<Rightarrow> nat \<Rightarrow> string \<Rightarrow> nat option" where
  "parse_digits prev acc [] = (if prev then Some acc else None)"
| "parse_digits prev acc (c # s) =
     (if is_digit c then parse_digits True (10 * acc + digit_val c) s
      else if c = CHR ''_'' \<and> prev then parse_digits False acc s
      else None)"

definition py_int :: "string \<Rightarrow> int option" where
  "py_int s =
     (case strip_chars py_whitespace s of
        [] \<Rightarrow> None
      | c # r \<Rightarrow>
          if c = CHR ''-'' then map_option (\<lambda>n. - int n) (parse_digits False 0 r)
          else if c = CHR ''+'' then map_option int (parse_digits False 0 r)
          else map_option int (parse_digits False 0 (c # r)))"

text \<open>\<open>isinstance(v, list)\<close> and \<open>isinstance(v, bool)\<close>.\<close>

fun is_list :: "yaml \<Rightarrow> bool" where
  "is_list (YList l) = True"
| "is_list _ = False"

fun is_bool :: "yaml \<Rightarrow> bool" where
  "is_bool (YBool b) = True"
| "is_bool _ = False"

text \<open>\<open>str.startswith(s, 'p')\<close>.\<close>

definition startswith_p :: "string \<Rightarrow> bool" where
  "startswith_p s = (case s of [] \<Rightarrow> False | c # _ \<Rightarrow> c = CHR ''p'')"

section \<open>What the source calls but does not contain\<close>

text \<open>
  \<open>result_summary.py\<close> calls three modules that are not among the source files. The
  values of the enum \<open>SummaryType\<close>, the table \<open>SummaryOp.get_summary_func\<close>, the
  function \<open>data_analysis.aggregate\<close> and the regular-expression engine used to resolve
  metric patterns are parameters of the model.
  \<^item> \<open>summary_types\<close>: the strings \<open>v\<close> for which \<open>SummaryType(v)\<close> is a member.
  \<^item> \<open>get_summary_func t\<close>: the reducer registered for the member with value \<open>t\<close>; a
    reducer takes the table and, for the percentile, the parameter \<open>val\<close>, and returns
    a Series indexed by column name.
  \<^item> \<open>aggregate d None\<close> is \<open>data_analysis.aggregate(d)\<close>, \<open>aggregate d (Some p)\<close>
    is \<open>data_analysis.aggregate(d, p)\<close>.
  \<^item> \<open>re_search p s\<close>: whether \<open>re.search(p, s)\<close> finds a match.
\<close>

record env =
  summary_types :: "string list"
  get_summary_func :: "string \<Rightarrow> error + (dataframe \<Rightarrow> int option \<Rightarrow> error + series)"
  aggregate :: "dataframe \<Rightarrow> yaml option \<Rightarrow> error + dataframe"
  re_search :: "string \<Rightarrow> string \<Rightarrow> bool"

text \<open>\<open>SummaryType(v)\<close>: the member with value \<open>v\<close>, or ValueError.\<close>

definition SummaryType :: "env \<Rightarrow> string \<Rightarrow> error + string" where
  "SummaryType e v = (if v \<in> set (summary_types e) then Inr v else Inl ValueError)"

section \<open>Rule validation: \<open>_check_rules\<close>\<close>

text \<open>
  Modelled from the spec: \<open>RuleBase._check_rules\<close>, called through \<open>super()\<close>, is not
  among the source files. Section 4.3 of the specification: a rule that is missing
  \<open>categories\<close> fails validation.
\<close>

definition base_check_rules :: "rule \<Rightarrow> string \<Rightarrow> error option" where
  "base_check_rules r name =
     (if map_of r ''categories'' = None then Some (LackOfCategory name) else None)"

text \<open>
  The loop over \<open>rule['statistics']\<close>. \<open>re.fullmatch\<close> raises TypeError on a value that
  is not a string. \<open>SummaryType(function)\<close> raises ValueError on a string that is not a
  member's value, and returns a member otherwise, so the \<open>isinstance\<close> test is true
  whenever it is reached and the message \<open>invalid function name\<close> is never raised.
\<close>

fun check_statistics :: "env \<Rightarrow> string \<Rightarrow> yaml list \<Rightarrow> error option" where
  "check_statistics e name [] = None"
| "check_statistics e name (f # fs) =
     (case f of
        YStr s \<Rightarrow>
          if fullmatch_pdd s then check_statistics e name fs
          else (case SummaryType e s of
                  Inl err \<Rightarrow> Some err
                | Inr t \<Rightarrow> check_statistics e name fs)
      | _ \<Rightarrow> Some TypeError)"

text \<open>
  The check of the \<open>aggregate\<close> field: absent, a bool, or a string in which
  \<open>re.search(r'\(.*\)', _)\<close> matches; \<open>re.search\<close> raises TypeError on any other value.
\<close>

definition check_aggregate :: "rule \<Rightarrow> string \<Rightarrow> error option" where
  "check_aggregate r name =
     (case map_of r ''aggregate'' of
        None \<Rightarrow> None
      | Some (YBool b) \<Rightarrow> None
      | Some (YStr s) \<Rightarrow> if search_paren s then None else Some (AggregateMustBeBool name)
      | Some _ \<Rightarrow> Some TypeError)"

text \<open>
  \<open>_check_rules(rule, name)\<close>. The rule is a dict that the function changes in place
  (the assignment to \<open>rule['statistics']\<close>), so the model returns the dict as it is when
  the function returns or raises, together with the exception raised, if any.
\<close>

definition check_rules :: "env \<Rightarrow> rule \<Rightarrow> string \<Rightarrow> rule \<times> error option" where
  "check_rules e r name =
     (case base_check_rules r name of
        Some err \<Rightarrow> (r, Some err)
      | None \<Rightarrow>
          if map_of r ''metrics'' = None then (r, Some (LackOfMetrics name))
          else (case map_of r ''statistics'' of
                  None \<Rightarrow> (r, Some (LackOfFunction name))
                | Some st \<Rightarrow>
                    (let r1 = (if is_list st then r
                               else AList.update ''statistics'' (YList [st]) r);
                         fs = (case st of YList l \<Rightarrow> l | _ \<Rightarrow> [st])
                     in case check_statistics e name fs of
                          Some err \<Rightarrow> (r1, Some err)
                        | None \<Rightarrow> (r1, check_aggregate r1 name))))"

section \<open>The analyzer object and rule parsing: \<open>_parse_rules\<close>\<close>

text \<open>
  One entry of \<open>self._sb_rules\<close>. The field \<open>metrics\<close> of the source is a dict whose
  keys are the resolved metric names; only its keys are read, so it is the list of its
  keys in insertion order.
\<close>

record sb_rule =
  sr_name :: string
  sr_categories :: yaml
  sr_metrics :: "string list"
  sr_statistics :: yaml
  sr_aggregate :: yaml

text \<open>
  The attributes of the \<open>ResultSummary\<close> object that the source reads and writes, and
  the lines it passes to \<open>logger.error\<close> and \<open>logger.info\<close>, oldest first.
\<close>

record analyzer =
  sb_rules :: "(string \<times> sb_rule) list"
  enable_metrics :: "string set"
  raw_data_df :: dataframe
  logged :: "log_entry list"

text \<open>
  Modelled from the spec: \<open>RuleBase._get_metrics\<close>, called through \<open>super()\<close>, is not
  among the source files. Section 4.3 of the specification: the \<open>metrics\<close> field of a
  rule is an explicit list or a pattern, it is matched against the columns of the raw
  table, the resolved set is the union of the matches, and a rule whose resolved set is
  empty fails with \<open>NoMatchingMetrics\<close>.
\<close>

definition metric_patterns :: "yaml \<Rightarrow> string list" where
  "metric_patterns m =
     (case m of
        YStr p \<Rightarrow> [p]
      | YList l \<Rightarrow> concat (map (\<lambda>y. case y of YStr p \<Rightarrow> [p] | _ \<Rightarrow> []) l)
      | _ \<Rightarrow> [])"

text \<open>
  Modelled from the spec: the resolved metrics of a rule, the columns of the raw table
  that some entry of the \<open>metrics\<close> field names or matches as a pattern.
\<close>

definition resolve_metrics :: "env \<Rightarrow> string list \<Rightarrow> yaml \<Rightarrow> string list" where
  "resolve_metrics e cols m =
     filter (\<lambda>c. list_ex (\<lambda>p. p = c \<or> re_search e p c) (metric_patterns m)) cols"

text \<open>
  Modelled from the spec: \<open>_get_metrics(rule, benchmark_rules)\<close> stores the resolved
  metrics in the entry of the rule, or fails with \<open>NoMatchingMetrics\<close> when there is
  none.
\<close>

definition get_metrics ::
  "env \<Rightarrow> analyzer \<Rightarrow> string \<Rightarrow> (string \<times> rule) list \<Rightarrow> error + analyzer" where
  "get_metrics e self name benchmark_rules =
     (case map_of benchmark_rules name of
        None \<Rightarrow> Inl KeyError
      | Some r \<Rightarrow>
          (case map_of r ''metrics'' of
             None \<Rightarrow> Inl KeyError
           | Some m \<Rightarrow>
               (let ms = resolve_metrics e (df_columns (raw_data_df self)) m
                in if ms = [] then Inl (NoMatchingMetrics name)
                   else Inr (self\<lparr>sb_rules :=
                          AList.map_entry name (\<lambda>x. x\<lparr>sr_metrics := ms\<rparr>) (sb_rules self)\<rparr>))))"

text \<open>
  The body of the loop \<open>for rule in benchmark_rules\<close>, for the rule names still to be
  visited. It returns the exception that ended the loop, if any, with the document and
  the object as they are at that moment: the document is the caller's dict, changed in
  place by \<open>_check_rules\<close>. After a successful \<open>_check_rules\<close> the fields
  \<open>categories\<close> and \<open>statistics\<close> are present; the lookups of the source would raise
  KeyError otherwise.
\<close>

fun parse_loop ::
  "env \<Rightarrow> string list \<Rightarrow> (string \<times> rule) list \<Rightarrow> analyzer \<Rightarrow>
     error option \<times> (string \<times> rule) list \<times> analyzer" where
  "parse_loop e [] d self = (None, d, self)"
| "parse_loop e (name # names) d self =
     (case map_of d name of
        None \<Rightarrow> (Some KeyError, d, self)
      | Some r \<Rightarrow>
          (case check_rules e r name of
             (r', Some err) \<Rightarrow> (Some err, AList.update name r' d, self)
           | (r', None) \<Rightarrow>
               (let d' = AList.update name r' d
                in case (map_of r' ''categories'', map_of r' ''statistics'') of
                     (Some c, Some st) \<Rightarrow>
                       (let entry = \<lparr>sr_name = name, sr_categories = c, sr_metrics = [],
                                     sr_statistics = st,
                                     sr_aggregate =
                                       (case map_of r' ''aggregate'' of
                                          Some a \<Rightarrow> a
                                        | None \<Rightarrow> YBool False)\<rparr>;
                            self' = self\<lparr>sb_rules := AList.update name entry (sb_rules self)\<rparr>
                        in case get_metrics e self' name d' of
                             Inl err \<Rightarrow> (Some err, d', self')
                           | Inr self'' \<Rightarrow> parse_loop e names d' self'')
                   | _ \<Rightarrow> (Some KeyError, d', self))))"

text \<open>
  \<open>_parse_rules(rules)\<close>: the value returned, the document after the call and the object
  after the call. Every exception is caught, logged, and turned into \<open>False\<close>.
\<close>

definition parse_rules ::
  "env \<Rightarrow> analyzer \<Rightarrow> rules_file \<Rightarrow> bool \<times> rules_file \<times> analyzer" where
  "parse_rules e self rules =
     (case rules of
        NoRules \<Rightarrow> (False, rules, self\<lparr>logged := logged self @ [GetRulesFailed]\<rparr>)
      | BadShape err \<Rightarrow>
          (False, rules,
           self\<lparr>sb_rules := [], enable_metrics := {},
                logged := logged self @ [ParseRulesFailed err]\<rparr>)
      | Rules d \<Rightarrow>
          (case parse_loop e (map fst d) d (self\<lparr>sb_rules := [], enable_metrics := {}\<rparr>) of
             (None, d', self') \<Rightarrow> (True, Rules d', self')
           | (Some err, d', self') \<Rightarrow>
               (False, Rules d', self'\<lparr>logged := logged self' @ [ParseRulesFailed err]\<rparr>)))"

section \<open>Tables\<close>

definition cell_at :: "row \<Rightarrow> string \<Rightarrow> cell" where
  "cell_at r c = (case map_of r c of Some v \<Rightarrow> v | None \<Rightarrow> NaN)"

definition empty_df :: dataframe where
  "empty_df = \<lparr>df_index = [], df_columns = [], df_rows = []\<rparr>"

text \<open>\<open>df[metrics]\<close> with a list of labels: KeyError when a label is not a column.\<close>

definition select_columns :: "dataframe \<Rightarrow> string list \<Rightarrow> error + dataframe" where
  "select_columns d ms =
     (if list_all (\<lambda>m. m \<in> set (df_columns d)) ms
      then Inr (d\<lparr>df_columns := ms,
                   df_rows := map (\<lambda>r. map (\<lambda>m. (m, cell_at r m)) ms) (df_rows d)\<rparr>)
      else Inl KeyError)"

text \<open>
  Double arithmetic. \<open>bit_length n\<close> is the number of binary digits of \<open>n\<close>,
  \<open>pow2 k\<close> is \<open>2\<close> to the power \<open>k\<close>, and \<open>ilog2 x\<close>, for a positive \<open>x\<close>,
  is the exponent \<open>e\<close> with \<open>2^e \<le> x < 2^(e+1)\<close>. The doubles around a real \<open>r\<close>
  are the multiples of \<open>quantum r\<close>: 53 binary digits for a normal number, multiples of
  \<open>2^-1074\<close> below \<open>2^-1022\<close>.
\<close>

fun bit_length :: "nat \<Rightarrow> nat" where
  "bit_length n = (if n = 0 then 0 else Suc (bit_length (n div 2)))"

declare bit_length.simps [simp del]

definition pow2 :: "int \<Rightarrow> real" where
  "pow2 k = (if 0 \<le> k then 2 ^ nat k else 1 / 2 ^ nat (- k))"

definition ilog2 :: "real \<Rightarrow> int" where
  "ilog2 x =
     (if 1 \<le> x then int (bit_length (nat \<lfloor>x\<rfloor>)) - 1
      else - int (bit_length (nat (\<lceil>1 / x\<rceil> - 1))))"

definition quantum :: "real \<Rightarrow> real" where
  "quantum r = pow2 (max (ilog2 \<bar>r\<bar>) (- 1022) - 52)"

text \<open>\<open>rint\<close>: the nearest integer, a tie going to the even one.\<close>

definition rint :: "real \<Rightarrow> int" where
  "rint x =
     (let f = \<lfloor>x\<rfloor>
      in if x - of_int f < 1 / 2 then f
         else if 1 / 2 < x - of_int f then f + 1
         else if even f then f else f + 1)"

text \<open>
  \<open>fl r\<close>: the double that an operation with the exact result \<open>r\<close> returns, the
  double nearest to \<open>r\<close>, a tie going to the even one, and an infinity when that
  double would reach \<open>2^1024\<close>.
\<close>

definition fl :: "real \<Rightarrow> cell" where
  "fl r =
     (if r = 0 then Num 0
      else (let y = of_int (rint (r / quantum r)) * quantum r
            in if 2 ^ 1024 \<le> \<bar>y\<bar> then (if 0 < r then PosInf else NegInf) else Num y))"

text \<open>
  \<open>DataFrame.round(6)\<close> on a finite number, as numpy computes it: the number is
  multiplied by \<open>10^6\<close>, the product is rounded to the nearest integer by \<open>rint\<close>, and
  the integer is divided by \<open>10^6\<close>; the product and the quotient are doubles. A
  product that leaves the range of the doubles is an infinity and stays one. Missing
  cells, infinities and strings are kept.
\<close>

definition round6 :: "real \<Rightarrow> cell" where
  "round6 x =
     (case fl (x * 1000000) of
        Num y \<Rightarrow> fl (of_int (rint y) / 1000000)
      | c \<Rightarrow> c)"

fun round_cell :: "cell \<Rightarrow> cell" where
  "round_cell (Num x) = round6 x"
| "round_cell NaN = NaN"
| "round_cell PosInf = PosInf"
| "round_cell NegInf = NegInf"
| "round_cell (Str s) = Str s"

text \<open>
  The test of the specification on a value \<open>v\<close> of the summary,
  \<open>abs(v - round(v, 6)) < 1e-9\<close>, in doubles, with the rounding above for
  \<open>round(v, 6)\<close>: the difference and the bound \<open>1e-9\<close> are doubles, the difference of
  two infinities is NaN, and a comparison with NaN is false.
\<close>

definition within_rounding_noise :: "cell \<Rightarrow> bool" where
  "within_rounding_noise v =
     (case v of
        Num x \<Rightarrow>
          (case round6 x of
             Num r \<Rightarrow>
               (case (fl (x - r), fl (1 / 10 ^ 9)) of
                  (Num d, Num b) \<Rightarrow> \<bar>d\<bar> < b
                | _ \<Rightarrow> False)
           | _ \<Rightarrow> False)
      | _ \<Rightarrow> False)"

text \<open>
  The table \<open>summary_df_of_rule\<close>: its columns are fixed when it is created, its rows are
  kept as a dict from the row label (the statistic name) to the row.
  \<open>summary_df_of_rule.loc[name] = series\<close> aligns the Series with the columns (a column
  absent from the Series becomes NaN), replaces the row labelled \<open>name\<close> if there is one
  and appends a row otherwise. pandas refuses to add a row to a frame without columns
  (ValueError).
\<close>

definition reindex :: "string list \<Rightarrow> series \<Rightarrow> row" where
  "reindex cols ser = map (\<lambda>c. (c, cell_at ser c)) cols"

definition loc_set ::
  "string list \<Rightarrow> string \<Rightarrow> series \<Rightarrow> (string \<times> row) list \<Rightarrow> error + (string \<times> row) list" where
  "loc_set cols name ser tbl =
     (if cols = [] then Inl ValueError
      else Inr (AList.update name (reindex cols ser) tbl))"

definition round_table :: "(string \<times> row) list \<Rightarrow> (string \<times> row) list" where
  "round_table tbl = map (\<lambda>(name, r). (name, map (\<lambda>(c, v). (c, round_cell v)) r)) tbl"

section \<open>Summary generation: \<open>_generate_summary\<close>\<close>

text \<open>A summary line \<open>[category, metric, statistic, value]\<close>.\<close>

type_synonym line = "yaml \<times> string \<times> string \<times> cell"

text \<open>
  \<open>_format_summary_of_rule(category, summary_df_of_rule)\<close>: the outer loop runs over the
  columns of the table, the inner loop over its row labels.
\<close>

definition format_summary_of_rule ::
  "yaml \<Rightarrow> string list \<Rightarrow> (string \<times> row) list \<Rightarrow> line list" where
  "format_summary_of_rule category cols tbl =
     concat (map (\<lambda>metric.
               map (\<lambda>(statistic, r). (category, metric, statistic, cell_at r metric)) tbl)
             cols)"

text \<open>
  The two branches of the loop body over the statistics: the Series that is assigned to
  the row \<open>statistic_name\<close>. The statements are evaluated in the order of the source:
  the enum member, the reducer, \<open>int(statistic_name.strip('p'))\<close>, the call.
\<close>

definition summary_row :: "env \<Rightarrow> dataframe \<Rightarrow> string \<Rightarrow> error + series" where
  "summary_row e d statistic_name =
     (if startswith_p statistic_name then
        (case SummaryType e ''percentile'' of
           Inl err \<Rightarrow> Inl err
         | Inr t \<Rightarrow>
             (case get_summary_func e t of
                Inl err \<Rightarrow> Inl err
              | Inr rule_op \<Rightarrow>
                  (case py_int (strip_p statistic_name) of
                     None \<Rightarrow> Inl ValueError
                   | Some val \<Rightarrow> rule_op d (Some val))))
      else
        (case SummaryType e statistic_name of
           Inl err \<Rightarrow> Inl err
         | Inr t \<Rightarrow>
             (case get_summary_func e t of
                Inl err \<Rightarrow> Inl err
              | Inr rule_op \<Rightarrow> rule_op d None)))"

text \<open>
  \<open>for statistic_name in statistics\<close>; \<open>str.startswith\<close> raises TypeError on a value
  that is not a string.
\<close>

fun statistics_loop ::
  "env \<Rightarrow> dataframe \<Rightarrow> string list \<Rightarrow> yaml list \<Rightarrow> (string \<times> row) list \<Rightarrow>
     error + (string \<times> row) list" where
  "statistics_loop e d cols [] tbl = Inr tbl"
| "statistics_loop e d cols (st # sts) tbl =
     (case st of
        YStr statistic_name \<Rightarrow>
          (case summary_row e d statistic_name of
             Inl err \<Rightarrow> Inl err
           | Inr ser \<Rightarrow>
               (case loc_set cols statistic_name ser tbl of
                  Inl err \<Rightarrow> Inl err
                | Inr tbl' \<Rightarrow> statistics_loop e d cols sts tbl'))
      | _ \<Rightarrow> Inl TypeError)"

text \<open>Iterating over a loaded value with \<open>for\<close>.\<close>

fun iterate :: "yaml \<Rightarrow> error + yaml list" where
  "iterate (YList l) = Inr l"
| "iterate (YStr s) = Inr (map (\<lambda>c. YStr [c]) s)"
| "iterate (YMap m) = Inr (map (\<lambda>(k, v). YStr k) m)"
| "iterate _ = Inl TypeError"

text \<open>
  \<open>data_df_of_rule\<close>: the raw table restricted to the metrics of the rule, then
  aggregated when \<open>aggregate\<close> is truthy: by rank when it is the value \<open>True\<close>, by the
  given pattern otherwise.
\<close>

definition data_df_of_rule :: "env \<Rightarrow> dataframe \<Rightarrow> sb_rule \<Rightarrow> error + dataframe" where
  "data_df_of_rule e raw r =
     (case select_columns raw (sr_metrics r) of
        Inl err \<Rightarrow> Inl err
      | Inr d \<Rightarrow>
          if truthy (sr_aggregate r) then
            (if sr_aggregate r = YBool True then aggregate e d None
             else aggregate e d (Some (sr_aggregate r)))
          else Inr d)"

text \<open>The body of the loop over the rules, up to \<open>summary_lines_of_rule\<close>.\<close>

definition summary_lines_of_rule :: "env \<Rightarrow> dataframe \<Rightarrow> sb_rule \<Rightarrow> error + line list" where
  "summary_lines_of_rule e raw r =
     (case data_df_of_rule e raw r of
        Inl err \<Rightarrow> Inl err
      | Inr d \<Rightarrow>
          (case iterate (sr_statistics r) of
             Inl err \<Rightarrow> Inl err
           | Inr sts \<Rightarrow>
               (case statistics_loop e d (sort (df_columns d)) sts [] of
                  Inl err \<Rightarrow> Inl err
                | Inr tbl \<Rightarrow>
                    Inr (format_summary_of_rule (sr_categories r) (sort (df_columns d))
                           (round_table tbl)))))"

text \<open>
  The dict \<open>summary\<close>, keyed by category. A list or a dict cannot be a key (TypeError).
  Python compares keys with \<open>==\<close>, under which \<open>True\<close> is \<open>1\<close> and \<open>False\<close> is \<open>0\<close>;
  an assignment to a key that is present keeps the key and replaces the value.
\<close>

fun hashable :: "yaml \<Rightarrow> bool" where
  "hashable (YList l) = False"
| "hashable (YMap m) = False"
| "hashable _ = True"

fun key_norm :: "yaml \<Rightarrow> yaml" where
  "key_norm (YBool b) = YInt (if b then 1 else 0)"
| "key_norm y = y"

fun dict_set :: "yaml \<Rightarrow> 'v \<Rightarrow> (yaml \<times> 'v) list \<Rightarrow> (yaml \<times> 'v) list" where
  "dict_set k v [] = [(k, v)]"
| "dict_set k v ((k', v') # d) =
     (if key_norm k' = key_norm k then (k', v) # d else (k', v') # dict_set k v d)"

type_synonym summary = "(yaml \<times> line list) list"

fun generate_loop :: "env \<Rightarrow> dataframe \<Rightarrow> sb_rule list \<Rightarrow> summary \<Rightarrow> error + summary" where
  "generate_loop e raw [] summary = Inr summary"
| "generate_loop e raw (r # rs) summary =
     (case summary_lines_of_rule e raw r of
        Inl err \<Rightarrow> Inl err
      | Inr summary_lines \<Rightarrow>
          if hashable (sr_categories r)
          then generate_loop e raw rs (dict_set (sr_categories r) summary_lines summary)
          else Inl TypeError)"

text \<open>
  \<open>_generate_summary()\<close>: the loop visits the entries of \<open>self._sb_rules\<close> in insertion
  order.
\<close>

definition generate_summary :: "env \<Rightarrow> analyzer \<Rightarrow> error + summary" where
  "generate_summary e self = generate_loop e (raw_data_df self) (map snd (sb_rules self)) []"

text \<open>\<open>_merge_summary(summary)\<close>: the rows of the merged table, one per line.\<close>

definition merge_summary :: "summary \<Rightarrow> line list" where
  "merge_summary summary = concat (map snd summary)"

section \<open>The main process: \<open>run\<close>\<close>

text \<open>
  What \<open>run\<close> hands to the writers of \<open>file_handler\<close>, which catch their own exceptions.
\<close>

datatype handed =
    ToExcel dataframe "line list"
  | ToMd summary
  | ToHtml summary

text \<open>
  \<open>run(raw_data_file, rule_file, output_dir, output_format)\<close>. \<open>RuleBase.preprocess\<close> is
  not among the source files: its outcome is a parameter, either the exception it raised
  or the raw table it stored in the object with the rule document it returned. The result
  is the object after the call, and the summary handed to a writer if there is one. The
  logged output path is the file name, without the output directory.
\<close>

definition run ::
  "env \<Rightarrow> analyzer \<Rightarrow> error + dataframe \<times> rules_file \<Rightarrow> string \<Rightarrow> analyzer \<times> handed option" where
  "run e self preprocessed output_format =
     (case preprocessed of
        Inl err \<Rightarrow> (self\<lparr>logged := logged self @ [RunFailed err]\<rparr>, None)
      | Inr (raw, rules) \<Rightarrow>
          (case parse_rules e (self\<lparr>raw_data_df := raw\<rparr>) rules of
             (False, rules', self') \<Rightarrow> (self', None)
           | (True, rules', self') \<Rightarrow>
               (case generate_summary e self' of
                  Inl err \<Rightarrow> (self'\<lparr>logged := logged self' @ [RunFailed err]\<rparr>, None)
                | Inr summary \<Rightarrow>
                    if output_format = ''excel'' then
                      (self'\<lparr>logged := logged self' @ [OutputResultsTo ''results_summary.xlsx'']\<rparr>,
                       Some (ToExcel (raw_data_df self') (merge_summary summary)))
                    else if output_format = ''md'' then
                      (self'\<lparr>logged := logged self' @ [OutputResultsTo ''results_summary.md'']\<rparr>,
                       Some (ToMd summary))
                    else if output_format = ''html'' then
                      (self'\<lparr>logged := logged self' @ [OutputResultsTo ''results_summary.html'']\<rparr>,
                       Some (ToHtml summary))
                    else
                      (self'\<lparr>logged := logged self' @ [UnsupportedOutputFormat, OutputResultsTo []]\<rparr>,
                       None))))"

section \<open>The loader of the raw table: \<open>read_raw_data\<close>\<close>







section \<open>The statistic registry of the specification\<close>

text \<open>
  Modelled from the spec: the module \<open>summary_op\<close> (\<open>SummaryType\<close>, \<open>SummaryOp\<close>) is not
  among the source files. Sections 4.1 and 4.4 of the specification: a reducer maps a
  column of numbers to a number, it is applied column-wise, missing and non-numeric
  cells are excluded from the computation, a reducer that has no data to act on fails
  with \<open>EmptyColumnReduction\<close> for the offending metric and statistic, and an unknown
  statistic name fails with \<open>UnsupportedStatistic\<close>. The registry itself, a list of
  statistic names with their reducers (which take the percentile parameter), stays a
  parameter.
\<close>

text \<open>
  Modelled from the spec: the cells of a column that a reducer acts on, its numbers,
  finite or infinite.
\<close>

fun is_number :: "cell \<Rightarrow> bool" where
  "is_number (Num x) = True"
| "is_number PosInf = True"
| "is_number NegInf = True"
| "is_number _ = False"

definition usable :: "dataframe \<Rightarrow> string \<Rightarrow> cell list" where
  "usable d c = filter is_number (map (\<lambda>r. cell_at r c) (df_rows d))"

text \<open>
  Modelled from the spec: a reducer \<open>f\<close> for the statistic \<open>t\<close> with parameter
  \<open>val\<close>, applied to the given columns of a table.
\<close>

fun reduce_columns ::
  "string \<Rightarrow> int option \<Rightarrow> (cell list \<Rightarrow> cell) \<Rightarrow> dataframe \<Rightarrow> string list \<Rightarrow> error + series" where
  "reduce_columns t val f d [] = Inr []"
| "reduce_columns t val f d (c # cs) =
     (if usable d c = [] then Inl (EmptyColumnReduction c t val)
      else (case reduce_columns t val f d cs of
              Inl err \<Rightarrow> Inl err
            | Inr ser \<Rightarrow> Inr ((c, f (usable d c)) # ser)))"

type_synonym registry = "(string \<times> (int option \<Rightarrow> cell list \<Rightarrow> cell)) list"

text \<open>Modelled from the spec: \<open>resolve(name)\<close>, the reducer of a statistic name.\<close>

definition registry_func ::
  "registry \<Rightarrow> string \<Rightarrow> error + (dataframe \<Rightarrow> int option \<Rightarrow> error + series)" where
  "registry_func reg t =
     (case map_of reg t of
        None \<Rightarrow> Inl (UnsupportedStatistic t)
      | Some f \<Rightarrow> Inr (\<lambda>d val. reduce_columns t val (f val) d (df_columns d)))"

text \<open>
  Modelled from the spec: the parameters of the model when the statistics are those of a
  registry; the names of the registry are the values of \<open>SummaryType\<close>.
\<close>

definition spec_env ::
  "registry \<Rightarrow> (dataframe \<Rightarrow> yaml option \<Rightarrow> error + dataframe) \<Rightarrow> (string \<Rightarrow> string \<Rightarrow> bool) \<Rightarrow> env" where
  "spec_env reg agg re =
     \<lparr>summary_types = map fst reg, get_summary_func = registry_func reg,
      aggregate = agg, re_search = re\<rparr>"

text \<open>
  Modelled from the spec: the built-in statistic \<open>mean\<close> of section 4.1, the sum of the
  numbers divided by their count, as an exact quotient. With an infinity among the
  numbers the mean is that infinity, and NaN when both infinities occur.
\<close>

definition finite_value :: "cell \<Rightarrow> real" where
  "finite_value v = (case v of Num x \<Rightarrow> x | _ \<Rightarrow> 0)"

definition mean :: "cell list \<Rightarrow> cell" where
  "mean vs =
     (if PosInf \<in> set vs then (if NegInf \<in> set vs then NaN else PosInf)
      else if NegInf \<in> set vs then NegInf
      else Num (sum_list (map finite_value vs) / real (length vs)))"

text \<open>
  Modelled from the spec: the built-in percentile of section 4.1. It interpolates
  linearly between the two closest ranks of the sorted column and never leaves the range
  of the column. In the sorted column the negative infinities come first and the
  positive ones last; between a number and a positive infinity the interpolation is
  that infinity, and NaN wherever else an infinity takes part.
\<close>

definition sorted_numbers :: "cell list \<Rightarrow> cell list" where
  "sorted_numbers vs =
     filter (\<lambda>v. v = NegInf) vs @
     map Num (sort (concat (map (\<lambda>v. case v of Num x \<Rightarrow> [x] | _ \<Rightarrow> []) vs))) @
     filter (\<lambda>v. v = PosInf) vs"

definition interpolate :: "cell \<Rightarrow> cell \<Rightarrow> real \<Rightarrow> cell" where
  "interpolate a b t =
     (if t = 0 then a
      else (case (a, b) of
              (Num x, Num y) \<Rightarrow> Num (x + t * (y - x))
            | (Num x, PosInf) \<Rightarrow> PosInf
            | _ \<Rightarrow> NaN))"

definition percentile :: "int option \<Rightarrow> cell list \<Rightarrow> cell" where
  "percentile val vs =
     (let s = sorted_numbers vs;
          top = length s - 1;
          pos = real_of_int (case val of Some p \<Rightarrow> p | None \<Rightarrow> 0) / 100 * real top;
          lo = min (nat \<lfloor>pos\<rfloor>) top;
          hi = min (lo + 1) top
      in interpolate (s ! lo) (s ! hi) (pos - real lo))"

section \<open>A capture group, as the specification words it\<close>

text \<open>
  The specification speaks of a string containing a parenthesized capture group. In a
  Python regular expression an opening parenthesis starts a capture group when it is not
  escaped by a backslash, not inside a character class, and not followed by a question
  mark, except in the named group \<open>(?P<name>...)\<close>. The scanner below reads the
  pattern from left to right; its two flags say whether the previous character was an
  unescaped backslash and whether the position is inside a character class.
\<close>

fun scan_capture_group :: "bool \<Rightarrow> bool \<Rightarrow> string \<Rightarrow> bool" where
  "scan_capture_group esc cls [] = False"
| "scan_capture_group esc cls (c # s) =
     (if esc then scan_capture_group False cls s
      else if c = CHR 0x5C then scan_capture_group True cls s
      else if cls then scan_capture_group False (c \<noteq> CHR '']'') s
      else if c = CHR ''['' then scan_capture_group False True s
      else if c = CHR ''('' then
        (case s of
           [] \<Rightarrow> True
         | q # s' \<Rightarrow>
             if q = CHR ''?'' then take 2 s' = ''P<'' \<or> scan_capture_group False False s'
             else True)
      else scan_capture_group False False s)"

definition spec_has_capture_group :: "string \<Rightarrow> bool" where
  "spec_has_capture_group s = scan_capture_group False False s"

section \<open>Example inputs\<close>

text \<open>
  A registry that holds the statistics \<open>mean\<close> and \<open>percentile\<close>, with an aggregation
  that returns its table and a pattern engine that matches a name against itself.
\<close>

definition example_env :: env where
  "example_env =
     spec_env [(''mean'', \<lambda>val. mean), (''percentile'', percentile)]
       (\<lambda>d p. Inr d) (\<lambda>p s. p = s)"

text \<open>The raw table of the end-to-end scenario of the specification.\<close>

definition example_raw :: dataframe where
  "example_raw =
     \<lparr>df_index = [Str ''n1'', Str ''n2''], df_columns = [''foo'', ''bar''],
      df_rows = [ [(''foo'', Num 1), (''bar'', Num 2)], [(''foo'', Num 3), (''bar'', Num 4)]]\<rparr>"

definition new_analyzer :: analyzer where
  "new_analyzer =
     \<lparr>sb_rules = [], enable_metrics = {}, raw_data_df = empty_df, logged = []\<rparr>"

text \<open>A rule without the field \<open>statistics\<close>.\<close>

definition rule_without_statistics :: rule where
  "rule_without_statistics =
     [(''categories'', YStr ''A''), (''metrics'', YList [YStr ''foo''])]"

text \<open>The rule \<open>r1\<close> of the end-to-end scenario, as the loader delivers it.\<close>

definition rule_r1 :: rule where
  "rule_r1 =
     [(''categories'', YStr ''A''), (''metrics'', YList [YStr ''foo'', YStr ''bar'']),
      (''statistics'', YList [YStr ''mean'']), (''aggregate'', YBool False)]"

text \<open>The entry of \<open>self._sb_rules\<close> that parsing builds from the rule \<open>r1\<close>.\<close>

definition sb_rule_r1 :: sb_rule where
  "sb_rule_r1 =
     \<lparr>sr_name = ''r1'', sr_categories = YStr ''A'', sr_metrics = [''foo'', ''bar''],
      sr_statistics = YList [YStr ''mean''], sr_aggregate = YBool False\<rparr>"

text \<open>The same entry with the 90th percentile as its statistic.\<close>

definition sb_rule_p90 :: sb_rule where
  "sb_rule_p90 =
     \<lparr>sr_name = ''r1'', sr_categories = YStr ''A'', sr_metrics = [''foo'', ''bar''],
      sr_statistics = YList [YStr ''p90''], sr_aggregate = YBool False\<rparr>"

text \<open>Two rules with the same category, one per column of the raw table.\<close>

definition rule_foo :: rule where
  "rule_foo =
     [(''categories'', YStr ''A''), (''metrics'', YList [YStr ''foo'']),
      (''statistics'', YList [YStr ''mean''])]"

definition rule_bar :: rule where
  "rule_bar =
     [(''categories'', YStr ''A''), (''metrics'', YList [YStr ''bar'']),
      (''statistics'', YList [YStr ''mean''])]"

text \<open>The entries of \<open>self._sb_rules\<close> that parsing builds from these two rules.\<close>

definition sb_rule_foo :: sb_rule where
  "sb_rule_foo =
     \<lparr>sr_name = ''r1'', sr_categories = YStr ''A'', sr_metrics = [''foo''],
      sr_statistics = YList [YStr ''mean''], sr_aggregate = YBool False\<rparr>"

definition sb_rule_bar :: sb_rule where
  "sb_rule_bar =
     \<lparr>sr_name = ''r2'', sr_categories = YStr ''A'', sr_metrics = [''bar''],
      sr_statistics = YList [YStr ''mean''], sr_aggregate = YBool False\<rparr>"

text \<open>A rule whose \<open>statistics\<close> field is the single string \<open>mean\<close>.\<close>

definition rule_scalar :: rule where
  "rule_scalar =
     [(''categories'', YStr ''A''), (''metrics'', YList [YStr ''foo'']),
      (''statistics'', YStr ''mean'')]"

text \<open>A rule that asks for the statistic named \<open>percentile\<close>.\<close>

definition rule_percentile :: rule where
  "rule_percentile =
     [(''categories'', YStr ''A''), (''metrics'', YList [YStr ''foo'']),
      (''statistics'', YList [YStr ''percentile''])]"

text \<open>The entry of \<open>self._sb_rules\<close> that parsing builds from that rule.\<close>

definition sb_rule_percentile :: sb_rule where
  "sb_rule_percentile =
     \<lparr>sr_name = ''r1'', sr_categories = YStr ''A'', sr_metrics = [''foo''],
      sr_statistics = YList [YStr ''percentile''], sr_aggregate = YBool False\<rparr>"

text \<open>A rule whose metric matches no column of the raw table.\<close>

definition rule_no_match :: rule where
  "rule_no_match =
     [(''categories'', YStr ''A''), (''metrics'', YList [YStr ''baz'']),
      (''statistics'', YList [YStr ''mean''])]"

text \<open>
  A rule whose \<open>aggregate\<close> pattern is \<open>\(x\)\<close>: both parentheses are escaped, so
  the pattern matches the literal text \<open>(x)\<close> and has no group.
\<close>

definition escaped_parens :: string where
  "escaped_parens = [CHR 0x5C, CHR ''('', CHR ''x'', CHR 0x5C, CHR '')'']"

definition rule_escaped_parens :: rule where
  "rule_escaped_parens =
     [(''categories'', YStr ''A''), (''metrics'', YList [YStr ''foo'']),
      (''statistics'', YList [YStr ''mean'']), (''aggregate'', YStr escaped_parens)]"

text \<open>A rule whose \<open>aggregate\<close> pattern has no parenthesis at all.\<close>

definition rule_no_parens :: rule where
  "rule_no_parens =
     [(''categories'', YStr ''A''), (''metrics'', YList [YStr ''foo'']),
      (''statistics'', YList [YStr ''mean'']), (''aggregate'', YStr ''rank'')]"

text \<open>A raw table in which no node reports the metric \<open>foo\<close>.\<close>

definition example_raw_missing :: dataframe where
  "example_raw_missing =
     \<lparr>df_index = [Str ''n1'', Str ''n2''], df_columns = [''foo'', ''bar''],
      df_rows = [ [(''foo'', NaN), (''bar'', Num 2)], [(''foo'', NaN), (''bar'', Num 4)]]\<rparr>"

text \<open>
  A raw table with one node, whose value of \<open>foo\<close> is the double \<open>2 ^ 1010\<close>, about
  \<open>1.1e304\<close>.
\<close>

definition example_raw_large :: dataframe where
  "example_raw_large =
     \<lparr>df_index = [Str ''n1''], df_columns = [''foo''],
      df_rows = [ [(''foo'', Num (2 ^ 1010))]]\<rparr>"

text \<open>
  A rule whose \<open>statistics\<close> field is the single string \<open>mean\<close> and which has no field
  \<open>metrics\<close>.
\<close>

definition rule_scalar_without_metrics :: rule where
  "rule_scalar_without_metrics =
     [(''categories'', YStr ''A''), (''statistics'', YStr ''mean'')]"


section \<open>Evaluating the model\<close>

text \<open>The defining equations that the simplifier unfolds to run the model on an input.\<close>

lemmas table_defs =
  run_def parse_rules_def check_rules_def base_check_rules_def example_env_def spec_env_def
  check_aggregate_def SummaryType_def fullmatch_pdd_def new_analyzer_def get_metrics_def
  resolve_metrics_def metric_patterns_def example_raw_def Let_def generate_summary_def
  summary_lines_of_rule_def data_df_of_rule_def select_columns_def cell_at_def
  summary_row_def startswith_p_def registry_func_def usable_def mean_def finite_value_def
  loc_set_def reindex_def round_table_def format_summary_of_rule_def is_digit_def
  empty_df_def

text \<open>The same with the equations of the arithmetic on doubles.\<close>

lemmas fl_eval =
  round6_def fl_def quantum_def ilog2_def pow2_def rint_def bit_length.simps Let_def

lemmas eval_defs = table_defs fl_eval

section \<open>Rule parsing stops at the first rule that fails\<close>

lemma check_rules_lacking:
  assumes "map_of r ''statistics'' = None \<or> map_of r ''metrics'' = None"
  shows "snd (check_rules e r name) \<in>
           {Some (LackOfCategory name), Some (LackOfMetrics name), Some (LackOfFunction name)}"
  using assms by (auto simp: check_rules_def base_check_rules_def split: option.splits)

lemma get_metrics_logged:
  "get_metrics e self name d = Inr self' \<Longrightarrow> logged self' = logged self"
  by (auto simp: get_metrics_def Let_def split: option.splits if_splits)

lemma parse_loop_logged:
  "logged (snd (snd (parse_loop e names d self))) = logged self"
proof (induction names arbitrary: d self)
  case Nil
  show ?case by simp
next
  case (Cons name names)
  show ?case
    by (auto simp: Let_def Cons.IH dest: get_metrics_logged
        split: option.splits prod.splits sum.splits)
qed

text \<open>
  A rule on which \<open>_check_rules\<close> raises ends the loop with an exception, wherever it
  stands in the document: the rules visited before it change only their own entries.
\<close>

lemma parse_loop_fails:
  assumes "n \<in> set names" and "map_of d n = Some r"
    and "snd (check_rules e r n) \<noteq> None"
  shows "fst (parse_loop e names d self) \<noteq> None"
  using assms
proof (induction names arbitrary: d self)
  case Nil
  then show ?case by simp
next
  case (Cons name names)
  show ?case
  proof (cases "name = n")
    case True
    with Cons.prems show ?thesis
      by (auto split: prod.splits option.splits)
  next
    case False
    with Cons.prems have n: "n \<in> set names" by simp
    have upd: "map_of (AList.update name r' d) n = Some r" for r'
      using False Cons.prems(2) by (simp add: update_conv')
    show ?thesis
      using Cons.IH [OF n upd Cons.prems(3)]
      by (auto simp: Let_def split: option.splits prod.splits sum.splits)
  qed
qed

lemma parse_rules_fails:
  assumes "map_of d n = Some r" and "snd (check_rules e r n) \<noteq> None"
  shows "fst (parse_rules e self (Rules d)) = False"
    and "\<exists>err. logged (snd (snd (parse_rules e self (Rules d)))) =
                 logged self @ [ParseRulesFailed err]"
proof -
  have mem: "n \<in> set (map fst d)"
    using assms(1) by (metis map_of_SomeD fst_conv image_eqI set_map)
  have fails: "fst (parse_loop e (map fst d) d s) \<noteq> None" for s
    using parse_loop_fails [OF mem assms] .
  show "fst (parse_rules e self (Rules d)) = False"
    using fails [of "self\<lparr>sb_rules := [], enable_metrics := {}\<rparr>"]
    by (auto simp: parse_rules_def split: prod.splits option.splits)
  show "\<exists>err. logged (snd (snd (parse_rules e self (Rules d)))) =
                 logged self @ [ParseRulesFailed err]"
    using fails [of "self\<lparr>sb_rules := [], enable_metrics := {}\<rparr>"]
      parse_loop_logged [of e "map fst d" d "self\<lparr>sb_rules := [], enable_metrics := {}\<rparr>"]
    by (auto simp: parse_rules_def split: prod.splits option.splits)
qed

lemma run_without_rules:
  assumes "\<And>s. fst (parse_rules e s rules) = False"
  shows "snd (run e self (Inr (raw, rules)) output_format) = None"
  using assms [of "self\<lparr>raw_data_df := raw\<rparr>"]
  by (auto simp: run_def split: prod.splits bool.splits)

text \<open>
  Claim C5. When some rule of the document has no \<open>statistics\<close> field or no \<open>metrics\<close>
  field, \<open>_check_rules\<close> raises one of the \<open>lack of\<close> exceptions on that rule,
  \<open>_parse_rules\<close> returns \<open>False\<close> after logging one parse failure, and \<open>run\<close> returns
  without generating a summary: nothing is handed to a writer, whatever the other rules,
  the raw table and the output format are.
\<close>

theorem missing_field_fails_parsing_and_computes_nothing:
  assumes "map_of d name = Some r"
    and "map_of r ''statistics'' = None \<or> map_of r ''metrics'' = None"
  shows "snd (check_rules e r name) \<in>
           {Some (LackOfCategory name), Some (LackOfMetrics name), Some (LackOfFunction name)} \<and>
         fst (parse_rules e self (Rules d)) = False \<and>
         (\<exists>err. logged (snd (snd (parse_rules e self (Rules d)))) =
                  logged self @ [ParseRulesFailed err]) \<and>
         snd (run e self (Inr (raw, Rules d)) output_format) = None"
proof -
  have lack: "snd (check_rules e r name) \<in>
           {Some (LackOfCategory name), Some (LackOfMetrics name), Some (LackOfFunction name)}"
    using check_rules_lacking [OF assms(2)] .
  then have bad: "snd (check_rules e r name) \<noteq> None"
    by auto
  have "snd (run e self (Inr (raw, Rules d)) output_format) = None"
    using parse_rules_fails(1) [OF assms(1) bad] by (rule run_without_rules)
  with lack parse_rules_fails [OF assms(1) bad, of self] show ?thesis
    by blast
qed

theorem missing_field_fails_parsing_and_computes_nothing_witness:
  "map_of [(''r1'', rule_without_statistics)] ''r1'' = Some rule_without_statistics \<and>
   (map_of rule_without_statistics ''statistics'' = None \<or>
    map_of rule_without_statistics ''metrics'' = None) \<and>
   fst (parse_rules example_env new_analyzer (Rules [(''r1'', rule_without_statistics)])) = False \<and>
   snd (run example_env new_analyzer
          (Inr (example_raw, Rules [(''r1'', rule_without_statistics)])) ''md'') = None"
  using missing_field_fails_parsing_and_computes_nothing
    [of "[(''r1'', rule_without_statistics)]" "''r1''" rule_without_statistics
        example_env new_analyzer example_raw "''md''"]
  by (simp add: rule_without_statistics_def)

section \<open>Validation changes the caller's document\<close>

lemma check_rules_normalises:
  assumes "map_of r ''categories'' \<noteq> None" and "map_of r ''metrics'' \<noteq> None"
    and "map_of r ''statistics'' = Some st" and "\<not> is_list st"
  shows "fst (check_rules e r name) = AList.update ''statistics'' (YList [st]) r"
  using assms
  by (auto simp: check_rules_def base_check_rules_def Let_def split: option.splits)

lemma check_rules_changes:
  "fst (check_rules e r name) = r \<or>
   (\<exists>st. map_of r ''statistics'' = Some st \<and> \<not> is_list st \<and>
      fst (check_rules e r name) = AList.update ''statistics'' (YList [st]) r)"
  by (auto simp: check_rules_def base_check_rules_def Let_def split: option.splits)

lemma check_rules_ok_present:
  assumes "snd (check_rules e r name) = None"
  shows "map_of r ''categories'' \<noteq> None \<and> map_of r ''metrics'' \<noteq> None \<and> map_of r ''statistics'' \<noteq> None"
  using assms
  by (auto simp: check_rules_def base_check_rules_def Let_def split: option.splits if_splits)

lemma parse_loop_unvisited:
  "n \<notin> set names \<Longrightarrow> map_of (fst (snd (parse_loop e names d self))) n = map_of d n"
proof (induction names arbitrary: d self)
  case Nil
  then show ?case by simp
next
  case (Cons name names)
  then have "name \<noteq> n" and n: "n \<notin> set names" by auto
  then show ?case
    using Cons.IH [OF n]
    by (auto simp: Let_def update_conv' split: option.splits prod.splits sum.splits)
qed

lemma parse_loop_visited:
  assumes "fst (parse_loop e names d self) = None" and "distinct names"
    and "n \<in> set names" and "map_of d n = Some r"
  shows "map_of (fst (snd (parse_loop e names d self))) n = Some (fst (check_rules e r n))"
  using assms
proof (induction names arbitrary: d self)
  case Nil
  then show ?case by simp
next
  case (Cons name names)
  show ?case
  proof (cases "name = n")
    case True
    with Cons.prems have "n \<notin> set names" by simp
    from parse_loop_unvisited [OF this] True Cons.prems(1,4) show ?thesis
      by (auto simp: Let_def update_conv' split: option.splits prod.splits sum.splits)
  next
    case False
    with Cons.prems have n: "n \<in> set names" and dn: "distinct names" by auto
    have upd: "map_of (AList.update name r' d) n = Some r" for r'
      using False Cons.prems(4) by (simp add: update_conv')
    show ?thesis
      using Cons.prems(1) Cons.IH [OF _ dn n upd]
      by (auto simp: Let_def split: option.splits prod.splits sum.splits)
  qed
qed

lemma update_differs:
  assumes "map_of r k = Some v" and "v \<noteq> w"
  shows "AList.update k w r \<noteq> r"
proof
  assume "AList.update k w r = r"
  then have "map_of (AList.update k w r) k = map_of r k" by simp
  with assms show False by (simp add: update_conv')
qed

lemma not_list_neq: "\<not> is_list st \<Longrightarrow> st \<noteq> YList [st]"
  by (cases st) auto

text \<open>
  Claim C10, as amended. \<open>_check_rules\<close> changes the rule it is given: when the rule has the fields
  \<open>categories\<close> and \<open>metrics\<close>, so that the checks before the conversion pass, and its
  \<open>statistics\<close> field is a value \<open>st\<close> that is not a list, the dict after the call
  holds the one-element list \<open>[st]\<close> in that field, whether the later checks pass or
  raise, and differs from the dict before the call. The rule is an entry of the caller's
  document: after a \<open>_parse_rules\<close> that returns \<open>True\<close>, the document holds the
  changed rule and is no longer the document that was passed in.
\<close>

theorem check_rules_wraps_scalar_statistics_in_place:
  assumes "map_of r ''categories'' \<noteq> None" and "map_of r ''metrics'' \<noteq> None"
    and "map_of r ''statistics'' = Some st" and "\<not> is_list st"
  shows "fst (check_rules e r name) = AList.update ''statistics'' (YList [st]) r \<and>
         map_of (fst (check_rules e r name)) ''statistics'' = Some (YList [st]) \<and>
         fst (check_rules e r name) \<noteq> r \<and>
         (distinct (map fst d) \<and> map_of d name = Some r \<and> fst (parse_rules e self (Rules d)) \<longrightarrow>
            (\<exists>d'. fst (snd (parse_rules e self (Rules d))) = Rules d' \<and>
                  map_of d' name = Some (AList.update ''statistics'' (YList [st]) r) \<and>
                  d' \<noteq> d))"
proof -
  have n: "fst (check_rules e r name) = AList.update ''statistics'' (YList [st]) r"
    using assms by (rule check_rules_normalises)
  have ne: "AList.update ''statistics'' (YList [st]) r \<noteq> r"
    using assms(3) not_list_neq [OF assms(4)] by (rule update_differs)
  have p: "\<exists>d'. fst (snd (parse_rules e self (Rules d))) = Rules d' \<and>
                  map_of d' name = Some (AList.update ''statistics'' (YList [st]) r) \<and>
                  d' \<noteq> d"
    if dist: "distinct (map fst d)" and dn: "map_of d name = Some r"
      and ok: "fst (parse_rules e self (Rules d))"
  proof -
    let ?s = "self\<lparr>sb_rules := [], enable_metrics := {}\<rparr>"
    obtain res d' s' where pl: "parse_loop e (map fst d) d ?s = (res, d', s')"
      by (cases "parse_loop e (map fst d) d ?s") auto
    with ok have res: "res = None"
      by (auto simp: parse_rules_def split: option.splits)
    have mem: "name \<in> set (map fst d)"
      using dn by (metis map_of_SomeD fst_conv image_eqI set_map)
    have "map_of d' name = Some (fst (check_rules e r name))"
      using parse_loop_visited [of e "map fst d" d ?s name r] pl res dist mem dn by simp
    then have a: "map_of d' name = Some (AList.update ''statistics'' (YList [st]) r)"
      using n by simp
    then have "d' \<noteq> d" using dn ne by auto
    with a pl res show ?thesis
      by (auto simp: parse_rules_def)
  qed
  show ?thesis using n ne p by (auto simp: update_conv')
qed


theorem check_rules_wraps_scalar_statistics_in_place_witness:
  "map_of rule_scalar ''categories'' \<noteq> None \<and> map_of rule_scalar ''metrics'' \<noteq> None \<and>
   map_of rule_scalar ''statistics'' = Some (YStr ''mean'') \<and> \<not> is_list (YStr ''mean'') \<and>
   distinct (map fst [(''r1'', rule_scalar)]) \<and>
   map_of [(''r1'', rule_scalar)] ''r1'' = Some rule_scalar \<and>
   fst (parse_rules example_env (new_analyzer\<lparr>raw_data_df := example_raw\<rparr>)
          (Rules [(''r1'', rule_scalar)])) \<and>
   fst (check_rules example_env rule_scalar ''r1'') \<noteq> rule_scalar \<and>
   (\<exists>d'. fst (snd (parse_rules example_env (new_analyzer\<lparr>raw_data_df := example_raw\<rparr>)
                     (Rules [(''r1'', rule_scalar)]))) = Rules d' \<and>
         map_of d' ''r1'' =
           Some (AList.update ''statistics'' (YList [YStr ''mean'']) rule_scalar) \<and>
         d' \<noteq> [(''r1'', rule_scalar)])"
proof -
  have ok: "fst (parse_rules example_env (new_analyzer\<lparr>raw_data_df := example_raw\<rparr>)
          (Rules [(''r1'', rule_scalar)]))"
    by (simp add: eval_defs rule_scalar_def)
  show ?thesis
    using ok check_rules_wraps_scalar_statistics_in_place [of rule_scalar "YStr ''mean''" example_env "''r1''" "[(''r1'', rule_scalar)]"
        "new_analyzer\<lparr>raw_data_df := example_raw\<rparr>"]
    by (simp add: rule_scalar_def)
qed

text \<open>
  The claim as stated fails on a rule with a scalar \<open>statistics\<close> field and no field
  \<open>metrics\<close>: the check of \<open>metrics\<close> raises before the conversion, the rule is left as
  it was, and the document after parsing is the document passed in. It fails too on a
  rule with a scalar \<open>statistics\<close> field that comes after a rule that fails: parsing
  stops at the first rule, and the document is unchanged.
\<close>

theorem scalar_statistics_are_kept_when_an_earlier_check_fails:
  "map_of rule_scalar_without_metrics ''statistics'' = Some (YStr ''mean'') \<and>
   \<not> is_list (YStr ''mean'') \<and>
   check_rules example_env rule_scalar_without_metrics ''r1'' =
     (rule_scalar_without_metrics, Some (LackOfMetrics ''r1'')) \<and>
   fst (snd (parse_rules example_env (new_analyzer\<lparr>raw_data_df := example_raw\<rparr>)
               (Rules [(''r1'', rule_scalar_without_metrics)]))) =
     Rules [(''r1'', rule_scalar_without_metrics)] \<and>
   map_of rule_scalar ''statistics'' = Some (YStr ''mean'') \<and>
   fst (snd (parse_rules example_env (new_analyzer\<lparr>raw_data_df := example_raw\<rparr>)
               (Rules [(''r0'', rule_without_statistics), (''r1'', rule_scalar)]))) =
     Rules [(''r0'', rule_without_statistics), (''r1'', rule_scalar)]"
  by (simp add: table_defs rule_scalar_without_metrics_def rule_scalar_def
      rule_without_statistics_def)

section \<open>The check of the aggregate field\<close>

lemma search_paren_iff:
  "search_paren s \<longleftrightarrow>
     (\<exists>u v w. s = u @ [CHR ''(''] @ v @ [CHR '')''] @ w \<and> CHR 0x0A \<notin> set v)"
proof (induction s)
  case Nil
  show ?case by simp
next
  case (Cons c s)
  show ?case
  proof
    assume "search_paren (c # s)"
    then consider (here) "c = CHR ''(''" "CHR '')'' \<in> set (takeWhile (\<lambda>d. d \<noteq> CHR 0x0A) s)"
      | (later) "search_paren s"
      by (auto split: if_splits)
    then show "\<exists>u v w. c # s = u @ [CHR ''(''] @ v @ [CHR '')''] @ w \<and> CHR 0x0A \<notin> set v"
    proof cases
      case here
      from here(2) obtain v t where t: "takeWhile (\<lambda>d. d \<noteq> CHR 0x0A) s = v @ CHR '')'' # t"
        by (meson split_list)
      have "set (takeWhile (\<lambda>d. d \<noteq> CHR 0x0A) s) \<subseteq> {d. d \<noteq> CHR 0x0A}"
        using set_takeWhileD by fastforce
      with t have nv: "CHR 0x0A \<notin> set v" by auto
      have "s = (v @ CHR '')'' # t) @ dropWhile (\<lambda>d. d \<noteq> CHR 0x0A) s"
        using t takeWhile_dropWhile_id [of "\<lambda>d. d \<noteq> CHR 0x0A" s] by simp
      then have "c # s = [] @ [CHR ''(''] @ v @ [CHR '')''] @ (t @ dropWhile (\<lambda>d. d \<noteq> CHR 0x0A) s)"
        using here(1) by simp
      with nv show ?thesis by blast
    next
      case later
      with Cons.IH obtain u v w where "s = u @ [CHR ''(''] @ v @ [CHR '')''] @ w" "CHR 0x0A \<notin> set v"
        by blast
      then have "c # s = (c # u) @ [CHR ''(''] @ v @ [CHR '')''] @ w \<and> CHR 0x0A \<notin> set v"
        by simp
      then show ?thesis by blast
    qed
  next
    assume "\<exists>u v w. c # s = u @ [CHR ''(''] @ v @ [CHR '')''] @ w \<and> CHR 0x0A \<notin> set v"
    then obtain u v w where e: "c # s = u @ [CHR ''(''] @ v @ [CHR '')''] @ w" and nv: "CHR 0x0A \<notin> set v"
      by blast
    show "search_paren (c # s)"
    proof (cases u)
      case Nil
      with e have c: "c = CHR ''(''" and s: "s = v @ CHR '')'' # w" by auto
      have "takeWhile (\<lambda>d. d \<noteq> CHR 0x0A) s = v @ takeWhile (\<lambda>d. d \<noteq> CHR 0x0A) (CHR '')'' # w)"
        unfolding s using nv by (intro takeWhile_append2) auto
      then have "CHR '')'' \<in> set (takeWhile (\<lambda>d. d \<noteq> CHR 0x0A) s)" by simp
      with c show ?thesis by simp
    next
      case (Cons c' u')
      with e have "s = u' @ [CHR ''(''] @ v @ [CHR '')''] @ w" by simp
      with nv Cons.IH have "search_paren s" by blast
      then show ?thesis by simp
    qed
  qed
qed

lemma check_rules_aggregate:
  assumes "map_of r ''categories'' \<noteq> None" and "map_of r ''metrics'' \<noteq> None"
    and "map_of r ''statistics'' = Some st"
    and "check_statistics e name (case st of YList l \<Rightarrow> l | _ \<Rightarrow> [st]) = None"
  shows "snd (check_rules e r name) =
     (case map_of r ''aggregate'' of
        None \<Rightarrow> None
      | Some (YBool b) \<Rightarrow> None
      | Some (YStr s) \<Rightarrow> if search_paren s then None else Some (AggregateMustBeBool name)
      | Some _ \<Rightarrow> Some TypeError)"
  using assms
  by (auto simp: check_rules_def base_check_rules_def check_aggregate_def Let_def update_conv'
      split: option.splits yaml.splits)

text \<open>
  Claim C7, as amended. For a rule that passes the checks before it (the fields
  \<open>categories\<close>, \<open>metrics\<close> and \<open>statistics\<close> are present and every statistic is
  accepted), \<open>_check_rules\<close> raises exactly when the \<open>aggregate\<close> field is present
  and is neither a bool nor a string in which an opening parenthesis is followed, with no
  line break in between, by a closing parenthesis: the message \<open>aggregate must be bool
  type\<close> for a string without such a pair, TypeError for a value that is not a string.
  The test is on the text of the pattern, not on its groups. A rule on which the check
  raises makes \<open>_parse_rules\<close> return \<open>False\<close>, and \<open>run\<close> returns before any
  aggregation.
\<close>

theorem aggregate_check_is_textual:
  assumes "map_of r ''categories'' \<noteq> None" and "map_of r ''metrics'' \<noteq> None"
    and "map_of r ''statistics'' = Some st"
    and "check_statistics e name (case st of YList l \<Rightarrow> l | _ \<Rightarrow> [st]) = None"
  shows "snd (check_rules e r name) =
           (case map_of r ''aggregate'' of
              None \<Rightarrow> None
            | Some (YBool b) \<Rightarrow> None
            | Some (YStr s) \<Rightarrow> if search_paren s then None else Some (AggregateMustBeBool name)
            | Some _ \<Rightarrow> Some TypeError) \<and>
         (\<forall>s. search_paren s \<longleftrightarrow>
            (\<exists>u v w. s = u @ [CHR ''(''] @ v @ [CHR '')''] @ w \<and> CHR 0x0A \<notin> set v)) \<and>
         (map_of d name = Some r \<and> snd (check_rules e r name) \<noteq> None \<longrightarrow>
            fst (parse_rules e self (Rules d)) = False \<and>
            snd (run e self (Inr (raw, Rules d)) output_format) = None)"
proof -
  have "fst (parse_rules e self (Rules d)) = False \<and>
        snd (run e self (Inr (raw, Rules d)) output_format) = None"
    if "map_of d name = Some r" and "snd (check_rules e r name) \<noteq> None"
    using parse_rules_fails(1) [OF that] run_without_rules [of e "Rules d"] by blast
  with check_rules_aggregate [OF assms] search_paren_iff show ?thesis
    by blast
qed

theorem aggregate_check_is_textual_witness:
  "map_of rule_no_parens ''categories'' \<noteq> None \<and> map_of rule_no_parens ''metrics'' \<noteq> None \<and>
   map_of rule_no_parens ''statistics'' = Some (YList [YStr ''mean'']) \<and>
   check_statistics example_env ''r1'' [YStr ''mean''] = None \<and>
   map_of [(''r1'', rule_no_parens)] ''r1'' = Some rule_no_parens \<and>
   snd (check_rules example_env rule_no_parens ''r1'') = Some (AggregateMustBeBool ''r1'') \<and>
   fst (parse_rules example_env new_analyzer (Rules [(''r1'', rule_no_parens)])) = False \<and>
   snd (run example_env new_analyzer (Inr (example_raw, Rules [(''r1'', rule_no_parens)])) ''md'')
     = None"
  using aggregate_check_is_textual [of rule_no_parens "YList [YStr ''mean'']" example_env "''r1''"
      "[(''r1'', rule_no_parens)]" new_analyzer example_raw "''md''"]
  by (simp add: rule_no_parens_def example_env_def spec_env_def SummaryType_def fullmatch_pdd_def)

text \<open>
  The claim as stated fails on the pattern \<open>\(x\)\<close>: the field is present, it is
  not a bool, and the string contains no capture group, since both parentheses are
  escaped; yet \<open>_check_rules\<close> raises nothing and \<open>_parse_rules\<close> returns \<open>True\<close>.
\<close>

theorem escaped_parentheses_pass_validation:
  "map_of rule_escaped_parens ''aggregate'' = Some (YStr escaped_parens) \<and>
   \<not> is_bool (YStr escaped_parens) \<and>
   \<not> spec_has_capture_group escaped_parens \<and>
   snd (check_rules example_env rule_escaped_parens ''r1'') = None \<and>
   fst (parse_rules example_env (new_analyzer\<lparr>raw_data_df := example_raw\<rparr>)
          (Rules [(''r1'', rule_escaped_parens)])) = True"
  by (simp add: eval_defs rule_escaped_parens_def escaped_parens_def spec_has_capture_group_def)

section \<open>Statistic names that start with p\<close>

lemma summary_row_percentile:
  assumes "''percentile'' \<in> set (summary_types e)" and "get_summary_func e ''percentile'' = Inr pct"
    and "startswith_p name"
  shows "summary_row e d name =
           (case py_int (strip_p name) of None \<Rightarrow> Inl ValueError | Some val \<Rightarrow> pct d (Some val))"
  using assms by (simp add: summary_row_def SummaryType_def)

lemma py_int_percentile: "py_int (strip_p ''percentile'') = None"
  by (simp add: py_int_def strip_p_def strip_chars_def py_whitespace_def is_digit_def)

text \<open>
  Claim C9. In summary generation a statistic name whose first character is p is always
  computed by the reducer registered for \<open>percentile\<close>, called with
  \<open>int(name.strip('p'))\<close>; the reducer registered under the name itself is never looked
  up. The name \<open>percentile\<close> is accepted by the validation as the value of a
  \<open>SummaryType\<close> member, but in generation \<open>int('ercentile')\<close> raises ValueError, so
  that a rule with this statistic yields no summary lines.
\<close>

theorem leading_p_dispatches_to_percentile:
  assumes "''percentile'' \<in> set (summary_types e)"
    and "get_summary_func e ''percentile'' = Inr pct"
  shows "(startswith_p name \<longrightarrow>
            summary_row e d name =
              (case py_int (strip_p name) of
                 None \<Rightarrow> Inl ValueError
               | Some val \<Rightarrow> pct d (Some val))) \<and>
         check_statistics e rule_name [YStr ''percentile''] = None \<and>
         summary_row e d ''percentile'' = Inl ValueError \<and>
         (data_df_of_rule e raw r = Inr d \<and> sr_statistics r = YList (YStr ''percentile'' # sts) \<longrightarrow>
            summary_lines_of_rule e raw r = Inl ValueError)"
proof -
  have a: "summary_row e d ''percentile'' = Inl ValueError"
    using summary_row_percentile [OF assms, of "''percentile''" d] py_int_percentile
    by (simp add: startswith_p_def)
  have b: "check_statistics e rule_name [YStr ''percentile''] = None"
    using assms(1) by (simp add: SummaryType_def)
  have c: "summary_lines_of_rule e raw r = Inl ValueError"
    if "data_df_of_rule e raw r = Inr d" and "sr_statistics r = YList (YStr ''percentile'' # sts)"
    using that a by (simp add: summary_lines_of_rule_def)
  show ?thesis
    using a b c summary_row_percentile [OF assms] by blast
qed

theorem leading_p_dispatches_to_percentile_witness:
  "''percentile'' \<in> set (summary_types example_env) \<and>
   get_summary_func example_env ''percentile'' =
     Inr (\<lambda>d val. reduce_columns ''percentile'' val (percentile val) d (df_columns d)) \<and>
   startswith_p ''percentile'' \<and>
   data_df_of_rule example_env example_raw sb_rule_percentile =
     Inr \<lparr>df_index = [Str ''n1'', Str ''n2''], df_columns = [''foo''],
          df_rows = [ [(''foo'', Num 1)], [(''foo'', Num 3)]]\<rparr> \<and>
   sr_statistics sb_rule_percentile = YList (YStr ''percentile'' # []) \<and>
   summary_lines_of_rule example_env example_raw sb_rule_percentile = Inl ValueError \<and>
   snd (check_rules example_env rule_percentile ''r1'') = None \<and>
   logged (fst (run example_env new_analyzer
                  (Inr (example_raw, Rules [(''r1'', rule_percentile)])) ''md'')) =
     [RunFailed ValueError] \<and>
   snd (run example_env new_analyzer
          (Inr (example_raw, Rules [(''r1'', rule_percentile)])) ''md'') = None"
proof -
  have run: "run example_env new_analyzer
                  (Inr (example_raw, Rules [(''r1'', rule_percentile)])) ''md'' =
     (\<lparr>sb_rules = [(''r1'', sb_rule_percentile)], enable_metrics = {}, raw_data_df = example_raw,
       logged = [RunFailed ValueError]\<rparr>, None)"
    by (simp add: eval_defs rule_percentile_def sb_rule_percentile_def py_int_def strip_p_def
        strip_chars_def py_whitespace_def)
  have d: "data_df_of_rule example_env example_raw sb_rule_percentile =
     Inr \<lparr>df_index = [Str ''n1'', Str ''n2''], df_columns = [''foo''],
          df_rows = [ [(''foo'', Num 1)], [(''foo'', Num 3)]]\<rparr>"
    by (simp add: eval_defs sb_rule_percentile_def)
  have v: "snd (check_rules example_env rule_percentile ''r1'') = None"
    by (simp add: eval_defs rule_percentile_def)
  have g: "get_summary_func example_env ''percentile'' =
     Inr (\<lambda>d val. reduce_columns ''percentile'' val (percentile val) d (df_columns d))"
    by (simp add: eval_defs)
  have m: "''percentile'' \<in> set (summary_types example_env)"
    by (simp add: eval_defs)
  show ?thesis
    using leading_p_dispatches_to_percentile [OF m g, of "''percentile''" _ "''r1''" example_raw sb_rule_percentile "[]"]
      run d v g m
    by (simp add: startswith_p_def sb_rule_percentile_def)
qed

section \<open>Rules that resolve to no column\<close>

lemma check_rules_metrics:
  "map_of (fst (check_rules e r n)) ''metrics'' = map_of r ''metrics''"
  using check_rules_changes [of e r n] by (auto simp: update_conv')

lemma get_metrics_raw:
  "get_metrics e self name d = Inr self' \<Longrightarrow> raw_data_df self' = raw_data_df self"
  by (auto simp: get_metrics_def Let_def split: option.splits if_splits)

lemma get_metrics_no_match:
  assumes "map_of d name = Some r" and "map_of r ''metrics'' = Some m"
    and "resolve_metrics e (df_columns (raw_data_df self)) m = []"
  shows "get_metrics e self name d = Inl (NoMatchingMetrics name)"
  using assms by (simp add: get_metrics_def)

lemma parse_loop_no_match:
  assumes "n \<in> set names" and "map_of d n = Some r" and "map_of r ''metrics'' = Some m"
    and "resolve_metrics e (df_columns (raw_data_df self)) m = []"
  shows "fst (parse_loop e names d self) \<noteq> None"
  using assms
proof (induction names arbitrary: d self)
  case Nil
  then show ?case by simp
next
  case (Cons name names)
  show ?case
  proof (cases "name = n")
    case True
    let ?r' = "fst (check_rules e r n)"
    have m: "map_of ?r' ''metrics'' = Some m"
      using Cons.prems(3) by (simp add: check_rules_metrics)
    have "get_metrics e s n (AList.update n ?r' d) = Inl (NoMatchingMetrics n)"
      if "raw_data_df s = raw_data_df self" for s
      using get_metrics_no_match [of "AList.update n ?r' d" n ?r' m e s] m Cons.prems(4) that
      by (simp add: update_conv')
    with True Cons.prems(2) show ?thesis
      by (auto simp: Let_def split: prod.splits option.splits sum.splits)
  next
    case False
    with Cons.prems have n: "n \<in> set names" by simp
    have upd: "map_of (AList.update name r' d) n = Some r" for r'
      using False Cons.prems(2) by (simp add: update_conv')
    have "fst (parse_loop e names (AList.update name r' d) s) \<noteq> None"
      if "raw_data_df s = raw_data_df self" for r' s
      using Cons.IH [OF n upd Cons.prems(3)] Cons.prems(4) that by simp
    then show ?thesis
      by (auto simp: Let_def dest!: get_metrics_raw split: option.splits prod.splits sum.splits)
  qed
qed

lemma set_map_entry_update:
  "(k, x) \<in> set (AList.map_entry name f (AList.update name v al)) \<Longrightarrow>
     (k, x) \<in> set al \<or> (\<exists>y. x = f y)"
  by (induction al) (auto split: if_splits)

lemma get_metrics_resolved:
  assumes "get_metrics e (self\<lparr>sb_rules := AList.update name entry (sb_rules self)\<rparr>) name d = Inr self'"
    and "\<forall>x \<in> set (map snd (sb_rules self)). sr_metrics x \<noteq> []"
  shows "\<forall>x \<in> set (map snd (sb_rules self')). sr_metrics x \<noteq> []"
proof -
  from assms(1) obtain ms where ms: "ms \<noteq> []"
    and s': "sb_rules self' =
      AList.map_entry name (\<lambda>x. x\<lparr>sr_metrics := ms\<rparr>) (AList.update name entry (sb_rules self))"
    by (auto simp: get_metrics_def Let_def split: option.splits if_splits)
  show ?thesis
  proof
    fix x assume "x \<in> set (map snd (sb_rules self'))"
    then obtain k where "(k, x) \<in> set (sb_rules self')" by auto
    then have "(k, x) \<in> set (sb_rules self) \<or> (\<exists>y. x = y\<lparr>sr_metrics := ms\<rparr>)"
      unfolding s' by (rule set_map_entry_update)
    then show "sr_metrics x \<noteq> []"
      using assms(2) ms by force
  qed
qed

lemma parse_loop_resolved:
  assumes "fst (parse_loop e names d self) = None"
    and "\<forall>x \<in> set (map snd (sb_rules self)). sr_metrics x \<noteq> []"
  shows "\<forall>x \<in> set (map snd (sb_rules (snd (snd (parse_loop e names d self))))). sr_metrics x \<noteq> []"
  using assms
proof (induction names arbitrary: d self)
  case Nil
  then show ?case by simp
next
  case (Cons name names)
  from Cons.prems(1) obtain r r' c st self'' where
    r: "map_of d name = Some r" and ck: "check_rules e r name = (r', None)"
    and c: "map_of r' ''categories'' = Some c" and st: "map_of r' ''statistics'' = Some st"
    and gm: "get_metrics e
        (self\<lparr>sb_rules := AList.update name
            \<lparr>sr_name = name, sr_categories = c, sr_metrics = [], sr_statistics = st,
             sr_aggregate = (case map_of r' ''aggregate'' of Some a \<Rightarrow> a | None \<Rightarrow> YBool False)\<rparr>
            (sb_rules self)\<rparr>) name (AList.update name r' d) = Inr self''"
    and rest: "parse_loop e (name # names) d self = parse_loop e names (AList.update name r' d) self''"
    by (auto simp: Let_def split: option.splits prod.splits sum.splits)
  have inv: "\<forall>x \<in> set (map snd (sb_rules self'')). sr_metrics x \<noteq> []"
    using gm Cons.prems(2) by (rule get_metrics_resolved)
  from Cons.prems(1) rest have "fst (parse_loop e names (AList.update name r' d) self'') = None"
    by simp
  from Cons.IH [OF this inv] rest show ?case by simp
qed

text \<open>
  Claim C2, with \<open>_get_metrics\<close> as the specification describes it. When the
  \<open>metrics\<close> field of a rule of the document matches no column of the raw table,
  \<open>_get_metrics\<close> fails on that rule with \<open>NoMatchingMetrics\<close>, \<open>_parse_rules\<close>
  returns \<open>False\<close> and \<open>run\<close> returns before generating a summary. Whenever
  \<open>_parse_rules\<close> returns \<open>True\<close>, every entry of \<open>self._sb_rules\<close> has at least one
  resolved metric, so summary generation never sees an empty metric set.
\<close>

theorem rule_without_matching_column_fails_parsing:
  assumes "map_of d name = Some r" and "map_of r ''metrics'' = Some m"
    and "resolve_metrics e (df_columns raw) m = []"
  shows "get_metrics e (self\<lparr>raw_data_df := raw\<rparr>) name d = Inl (NoMatchingMetrics name) \<and>
         fst (parse_rules e (self\<lparr>raw_data_df := raw\<rparr>) (Rules d)) = False \<and>
         snd (run e self (Inr (raw, Rules d)) output_format) = None \<and>
         (fst (parse_rules e self (Rules d')) \<longrightarrow>
            list_all (\<lambda>x. sr_metrics x \<noteq> [])
              (map snd (sb_rules (snd (snd (parse_rules e self (Rules d')))))))"
proof -
  have a: "get_metrics e (self\<lparr>raw_data_df := raw\<rparr>) name d = Inl (NoMatchingMetrics name)"
    using assms by (intro get_metrics_no_match) auto
  have mem: "name \<in> set (map fst d)"
    using assms(1) by (metis map_of_SomeD fst_conv image_eqI set_map)
  have fails: "fst (parse_loop e (map fst d) d s) \<noteq> None" if "raw_data_df s = raw" for s
    using parse_loop_no_match [OF mem assms(1,2)] assms(3) that by simp
  have b: "fst (parse_rules e (s\<lparr>raw_data_df := raw\<rparr>) (Rules d)) = False" for s
    using fails [of "s\<lparr>raw_data_df := raw, sb_rules := [], enable_metrics := {}\<rparr>"]
    by (auto simp: parse_rules_def split: prod.splits option.splits)
  have c: "snd (run e self (Inr (raw, Rules d)) output_format) = None"
    using b [of self] by (auto simp: run_def split: prod.splits bool.splits)
  have d: "list_all (\<lambda>x. sr_metrics x \<noteq> [])
              (map snd (sb_rules (snd (snd (parse_rules e self (Rules d'))))))"
    if ok: "fst (parse_rules e self (Rules d'))"
  proof -
    let ?s = "self\<lparr>sb_rules := [], enable_metrics := {}\<rparr>"
    from ok have none: "fst (parse_loop e (map fst d') d' ?s) = None"
      by (auto simp: parse_rules_def split: prod.splits option.splits)
    have "\<forall>x \<in> set (map snd (sb_rules ?s)). sr_metrics x \<noteq> []" by simp
    from parse_loop_resolved [OF none this] none show ?thesis
      by (auto simp: parse_rules_def list_all_iff split: prod.splits option.splits)
  qed
  from a b c d show ?thesis by blast
qed

theorem rule_without_matching_column_fails_parsing_witness:
  "map_of [(''r1'', rule_no_match)] ''r1'' = Some rule_no_match \<and>
   map_of rule_no_match ''metrics'' = Some (YList [YStr ''baz'']) \<and>
   resolve_metrics example_env (df_columns example_raw) (YList [YStr ''baz'']) = [] \<and>
   get_metrics example_env (new_analyzer\<lparr>raw_data_df := example_raw\<rparr>) ''r1''
     [(''r1'', rule_no_match)] = Inl (NoMatchingMetrics ''r1'') \<and>
   fst (parse_rules example_env (new_analyzer\<lparr>raw_data_df := example_raw\<rparr>)
          (Rules [(''r1'', rule_no_match)])) = False \<and>
   snd (run example_env new_analyzer (Inr (example_raw, Rules [(''r1'', rule_no_match)])) ''md'')
     = None \<and>
   fst (parse_rules example_env (new_analyzer\<lparr>raw_data_df := example_raw\<rparr>)
          (Rules [(''r1'', rule_r1)])) \<and>
   list_all (\<lambda>x. sr_metrics x \<noteq> [])
     (map snd (sb_rules (snd (snd (parse_rules example_env
        (new_analyzer\<lparr>raw_data_df := example_raw\<rparr>) (Rules [(''r1'', rule_r1)]))))))"
proof -
  have ok: "fst (parse_rules example_env (new_analyzer\<lparr>raw_data_df := example_raw\<rparr>)
          (Rules [(''r1'', rule_r1)]))"
    by (simp add: eval_defs rule_r1_def)
  have nm: "resolve_metrics example_env (df_columns example_raw) (YList [YStr ''baz'']) = []"
    by (simp add: eval_defs)
  show ?thesis
    using ok nm rule_without_matching_column_fails_parsing [of "[(''r1'', rule_no_match)]" "''r1''" rule_no_match "YList [YStr ''baz'']"
        example_env example_raw new_analyzer "''md''" "[(''r1'', rule_r1)]"]
       rule_without_matching_column_fails_parsing [of "[(''r1'', rule_no_match)]" "''r1''" rule_no_match "YList [YStr ''baz'']"
        example_env example_raw "new_analyzer\<lparr>raw_data_df := example_raw\<rparr>" "''md''" "[(''r1'', rule_r1)]"]
    by (simp add: rule_no_match_def)
qed

section \<open>The order of the summary lines of a rule\<close>

lemma remdups_snoc: "remdups (xs @ [x]) = filter (\<lambda>y. y \<noteq> x) (remdups xs) @ [x]"
  by (induction xs) auto

lemma first_occurrence_Cons:
  "rev (remdups (rev (x # xs))) = x # filter (\<lambda>y. y \<noteq> x) (rev (remdups (rev xs)))"
  by (simp add: remdups_snoc rev_filter)

lemma first_occurrence_known:
  "k \<in> K \<Longrightarrow>
     filter (\<lambda>n. n \<notin> K) (rev (remdups (rev (k # ns)))) =
     filter (\<lambda>n. n \<notin> K) (rev (remdups (rev ns)))"
  unfolding first_occurrence_Cons by (auto intro: filter_cong)

lemma first_occurrence_new:
  "k \<notin> K \<Longrightarrow>
     filter (\<lambda>n. n \<notin> K) (rev (remdups (rev (k # ns)))) =
     k # filter (\<lambda>n. n \<notin> insert k K) (rev (remdups (rev ns)))"
  unfolding first_occurrence_Cons by (auto intro: filter_cong)

text \<open>
  The row labels of the table after the loop over the statistics: the labels it had,
  followed by the new statistic names in the order of their first occurrence.
\<close>

lemma statistics_loop_keys:
  assumes "statistics_loop e d cols sts tbl = Inr tbl'"
  shows "\<exists>names. sts = map YStr names \<and>
           map fst tbl' =
             map fst tbl @ filter (\<lambda>n. n \<notin> set (map fst tbl)) (rev (remdups (rev names)))"
  using assms
proof (induction sts arbitrary: tbl)
  case Nil
  then show ?case by simp
next
  case (Cons st sts)
  from Cons.prems obtain name ser where st: "st = YStr name"
    and rest: "statistics_loop e d cols sts (AList.update name (reindex cols ser) tbl) = Inr tbl'"
    by (auto simp: loc_set_def split: yaml.splits sum.splits if_splits)
  let ?K = "set (map fst tbl)"
  from Cons.IH [OF rest] obtain names where names: "sts = map YStr names"
    and keys: "map fst tbl' = map fst (AList.update name (reindex cols ser) tbl) @
        filter (\<lambda>n. n \<notin> set (map fst (AList.update name (reindex cols ser) tbl)))
          (rev (remdups (rev names)))"
    by blast
  have "map fst tbl' = map fst tbl @
      filter (\<lambda>n. n \<notin> ?K) (rev (remdups (rev (name # names))))"
  proof (cases "name \<in> ?K")
    case True
    have "map fst tbl' = map fst tbl @ filter (\<lambda>n. n \<notin> ?K) (rev (remdups (rev names)))"
      using keys True by (simp only: update_keys if_True)
    then show ?thesis
      by (simp only: first_occurrence_known [OF True])
  next
    case False
    have "map fst tbl' = (map fst tbl @ [name]) @
        filter (\<lambda>n. n \<notin> insert name ?K) (rev (remdups (rev names)))"
      using keys False
      by (simp only: update_keys if_False set_append list.set Un_insert_right
          sup_bot.right_neutral)
    then show ?thesis
      by (simp only: first_occurrence_new [OF False] append_assoc append_Cons append_Nil)
  qed
  with st names show ?case
    by (intro exI [of _ "name # names"]) simp
qed

lemma format_keys:
  "map (\<lambda>(c, m, s, v). (m, s)) (format_summary_of_rule category cols tbl) =
     List.product cols (map fst tbl)"
  by (induction cols) (auto simp: format_summary_of_rule_def split_beta)

lemma format_category:
  "list_all (\<lambda>(c, m, s, v). c = category) (format_summary_of_rule category cols tbl)"
  by (auto simp: format_summary_of_rule_def list_all_iff)

lemma round_table_keys: "map fst (round_table tbl) = map fst tbl"
  by (induction tbl) (auto simp: round_table_def)

lemma r1_lines:
  "summary_lines_of_rule example_env example_raw sb_rule_r1 =
     Inr [(YStr ''A'', ''bar'', ''mean'', Num 3), (YStr ''A'', ''foo'', ''mean'', Num 2)]"
  by (simp add: eval_defs sb_rule_r1_def)

lemma r1_summary:
  "generate_summary example_env
     (new_analyzer\<lparr>sb_rules := [(''r1'', sb_rule_r1)], raw_data_df := example_raw\<rparr>) =
     Inr [(YStr ''A'',
           [(YStr ''A'', ''bar'', ''mean'', Num 3), (YStr ''A'', ''foo'', ''mean'', Num 2)])]"
  by (simp add: generate_summary_def new_analyzer_def r1_lines) (simp add: sb_rule_r1_def)

lemma r1_run:
  "snd (run example_env new_analyzer (Inr (example_raw, Rules [(''r1'', rule_r1)])) ''md'') =
     Some (ToMd [(YStr ''A'',
           [(YStr ''A'', ''bar'', ''mean'', Num 3), (YStr ''A'', ''foo'', ''mean'', Num 2)])])"
  by (simp add: eval_defs rule_r1_def)

text \<open>
  Claim C6. The summary lines of a rule are in metric-major order: read as pairs of
  metric and statistic, they are the product of the columns of the rule's table, sorted
  as strings, with the statistic names in the order in which the rule lists them (a name
  listed twice labels one row, at its first place); every line carries the category of
  the rule. For the raw table and the rule \<open>r1\<close> of the scenario, with the mean of the
  specification, the summary is the category \<open>A\<close> with the line of \<open>bar\<close> (3.0)
  before the line of \<open>foo\<close> (2.0), both from the parsed rule set and from the rule
  document through \<open>run\<close>.
\<close>

theorem summary_lines_are_metric_major:
  assumes "summary_lines_of_rule e raw r = Inr summary_lines"
  shows "(\<exists>d names. data_df_of_rule e raw r = Inr d \<and>
           iterate (sr_statistics r) = Inr (map YStr names) \<and>
           map (\<lambda>(c, m, s, v). (m, s)) summary_lines =
             List.product (sort (df_columns d)) (rev (remdups (rev names))) \<and>
           list_all (\<lambda>(c, m, s, v). c = sr_categories r) summary_lines) \<and>
         generate_summary example_env
           (new_analyzer\<lparr>sb_rules := [(''r1'', sb_rule_r1)], raw_data_df := example_raw\<rparr>) =
           Inr [(YStr ''A'',
                 [(YStr ''A'', ''bar'', ''mean'', Num 3),
                  (YStr ''A'', ''foo'', ''mean'', Num 2)])] \<and>
         snd (run example_env new_analyzer (Inr (example_raw, Rules [(''r1'', rule_r1)])) ''md'') =
           Some (ToMd [(YStr ''A'',
                 [(YStr ''A'', ''bar'', ''mean'', Num 3),
                  (YStr ''A'', ''foo'', ''mean'', Num 2)])])"
proof -
  from assms obtain d sts tbl where d: "data_df_of_rule e raw r = Inr d"
    and sts: "iterate (sr_statistics r) = Inr sts"
    and tbl: "statistics_loop e d (sort (df_columns d)) sts [] = Inr tbl"
    and l: "summary_lines =
        format_summary_of_rule (sr_categories r) (sort (df_columns d)) (round_table tbl)"
    by (auto simp: summary_lines_of_rule_def split: sum.splits)
  from statistics_loop_keys [OF tbl] obtain names where n: "sts = map YStr names"
    and k: "map fst tbl = rev (remdups (rev names))"
    by auto
  have "map (\<lambda>(c, m, s, v). (m, s)) summary_lines =
             List.product (sort (df_columns d)) (rev (remdups (rev names)))"
    using k l by (simp add: format_keys round_table_keys)
  moreover have "list_all (\<lambda>(c, m, s, v). c = sr_categories r) summary_lines"
    unfolding l by (rule format_category)
  ultimately have "\<exists>d names. data_df_of_rule e raw r = Inr d \<and>
           iterate (sr_statistics r) = Inr (map YStr names) \<and>
           map (\<lambda>(c, m, s, v). (m, s)) summary_lines =
             List.product (sort (df_columns d)) (rev (remdups (rev names))) \<and>
           list_all (\<lambda>(c, m, s, v). c = sr_categories r) summary_lines"
    using d sts n by blast
  with r1_summary r1_run show ?thesis
    by blast
qed

theorem summary_lines_are_metric_major_witness:
  "summary_lines_of_rule example_env example_raw sb_rule_r1 =
     Inr [(YStr ''A'', ''bar'', ''mean'', Num 3), (YStr ''A'', ''foo'', ''mean'', Num 2)] \<and>
   (\<exists>d names. data_df_of_rule example_env example_raw sb_rule_r1 = Inr d \<and>
      iterate (sr_statistics sb_rule_r1) = Inr (map YStr names) \<and>
      map (\<lambda>(c, m, s, v). (m, s))
        [(YStr ''A'', ''bar'', ''mean'', Num 3), (YStr ''A'', ''foo'', ''mean'', Num 2)] =
        List.product (sort (df_columns d)) (rev (remdups (rev names))))"
  using summary_lines_are_metric_major [OF r1_lines] r1_lines by blast

section \<open>Rounding\<close>

lemma set_update_cases:
  "(k, v) \<in> set (AList.update k' v' al) \<Longrightarrow> (k, v) = (k', v') \<or> (k, v) \<in> set al"
  by (induction al) (auto split: if_splits)

lemma statistics_loop_rows:
  assumes "statistics_loop e d cols sts tbl = Inr tbl'"
    and "\<forall>(s, r) \<in> set tbl. \<exists>ser. summary_row e d s = Inr ser \<and> r = reindex cols ser"
  shows "\<forall>(s, r) \<in> set tbl'. \<exists>ser. summary_row e d s = Inr ser \<and> r = reindex cols ser"
  using assms
proof (induction sts arbitrary: tbl)
  case Nil
  then show ?case by simp
next
  case (Cons st sts)
  from Cons.prems(1) obtain name ser where st: "st = YStr name"
    and row: "summary_row e d name = Inr ser"
    and rest: "statistics_loop e d cols sts (AList.update name (reindex cols ser) tbl) = Inr tbl'"
    by (auto simp: loc_set_def split: yaml.splits sum.splits if_splits)
  have "\<forall>(s, r) \<in> set (AList.update name (reindex cols ser) tbl).
          \<exists>ser. summary_row e d s = Inr ser \<and> r = reindex cols ser"
    using Cons.prems(2) row by (auto dest!: set_update_cases)
  from Cons.IH [OF rest this] show ?case .
qed

lemma cell_at_rounded:
  assumes "m \<in> set cols"
  shows "cell_at (map (\<lambda>(c, v). (c, round_cell v)) (reindex cols ser)) m = round_cell (cell_at ser m)"
proof -
  have "map (\<lambda>(c, v). (c, round_cell v)) (reindex cols ser) =
        map (\<lambda>c. (c, round_cell (cell_at ser c))) cols"
    by (simp add: reindex_def)
  moreover have "map_of (map (\<lambda>c. (c, f c)) cols) m = Some (f m)" for f :: "string \<Rightarrow> cell"
    using assms by (induction cols) auto
  ultimately show ?thesis
    by (simp add: cell_at_def)
qed

lemma format_lines:
  assumes "(c, m, s, v) \<in> set (format_summary_of_rule category cols (round_table tbl))"
  shows "m \<in> set cols \<and> (\<exists>r. (s, r) \<in> set tbl \<and> v = cell_at (map (\<lambda>(c, v). (c, round_cell v)) r) m)"
  using assms by (auto simp: format_summary_of_rule_def round_table_def)

text \<open>The arithmetic on doubles: the exponent of a number and the error of \<open>fl\<close>.\<close>

lemma bit_length_bounds:
  "0 < n \<Longrightarrow> 2 ^ (bit_length n - 1) \<le> n \<and> n < 2 ^ bit_length n"
proof (induction n rule: bit_length.induct)
  case (1 n)
  show ?case
  proof (cases "n div 2 = 0")
    case True
    with "1.prems" have "n = 1" by (auto simp: div_eq_0_iff)
    then show ?thesis by (simp add: bit_length.simps)
  next
    case False
    then have pos: "0 < n div 2" by simp
    from "1.IH" [OF _ pos] "1.prems"
    have ih: "2 ^ (bit_length (n div 2) - 1) \<le> n div 2" "n div 2 < 2 ^ bit_length (n div 2)"
      by auto
    have b: "bit_length n = Suc (bit_length (n div 2))"
      using "1.prems" by (subst bit_length.simps) simp
    have b1: "0 < bit_length (n div 2)"
      using pos by (subst bit_length.simps) simp
    then have p: "(2::nat) ^ bit_length (n div 2) = 2 * 2 ^ (bit_length (n div 2) - 1)"
      by (cases "bit_length (n div 2)") auto
    define P :: nat where "P = 2 ^ (bit_length (n div 2) - 1)"
    have "P \<le> n div 2" "n div 2 < 2 * P"
      using ih p by (simp_all add: P_def)
    then have "2 * P \<le> n \<and> n < 2 * (2 * P)"
      by presburger
    then show ?thesis
      using p b by (simp add: P_def)
  qed
qed

lemma pow2_pos: "0 < pow2 k"
  by (simp add: pow2_def)

lemma pow2_nat: "pow2 (int n) = 2 ^ n"
  by (simp add: pow2_def)

lemma pow2_neg_nat: "pow2 (- int n) = 1 / 2 ^ n"
proof (cases "n = 0")
  case True
  then show ?thesis by (simp add: pow2_def)
next
  case False
  then have "\<not> 0 \<le> - int n" and "nat (- (- int n)) = n" by simp_all
  then show ?thesis by (simp only: pow2_def if_False)
qed

lemma pow2_add: "pow2 (a + b) = pow2 a * pow2 b"
proof -
  have "pow2 k = 2 powr (real_of_int k)" for k
    by (auto simp: pow2_def powr_realpow [symmetric] powr_minus divide_simps)
  then show ?thesis by (simp add: powr_add)
qed

lemma pow2_mono: "a \<le> b \<Longrightarrow> pow2 a \<le> pow2 b"
proof -
  have "pow2 k = 2 powr (real_of_int k)" for k
    by (auto simp: pow2_def powr_realpow [symmetric] powr_minus divide_simps)
  then show "a \<le> b \<Longrightarrow> pow2 a \<le> pow2 b" by simp
qed


lemma pow2_diff: "pow2 (a - b) = pow2 a / pow2 b"
proof -
  have "pow2 a = pow2 (a - b) * pow2 b"
    using pow2_add [of "a - b" b] by simp
  then show ?thesis using pow2_pos [of b] by (simp add: field_simps)
qed

lemma ilog2_bounds:
  assumes "0 < x"
  shows "pow2 (ilog2 x) \<le> x \<and> x < pow2 (ilog2 x + 1)"
proof (cases "1 \<le> x")
  case True
  define n where "n = nat \<lfloor>x\<rfloor>"
  have n: "0 < n" "real n \<le> x" "x < real n + 1"
    using True by (auto simp: n_def)
  from bit_length_bounds [OF n(1)]
  have b: "2 ^ (bit_length n - 1) \<le> n" "n < 2 ^ bit_length n" by auto
  have bpos: "0 < bit_length n"
    using n(1) by (subst bit_length.simps) simp
  have e: "ilog2 x = int (bit_length n - 1)"
    using True bpos by (simp add: ilog2_def n_def)
  have e1: "ilog2 x + 1 = int (bit_length n)"
    using e bpos by simp
  have "real (2 ^ (bit_length n - 1)) \<le> real n"
    using b(1) by (rule iffD2 [OF of_nat_le_iff])
  then have "(2::real) ^ (bit_length n - 1) \<le> real n"
    by (simp only: of_nat_power of_nat_numeral)
  then have "(2::real) ^ (bit_length n - 1) \<le> x"
    using n(2) by linarith
  then have lo: "pow2 (ilog2 x) \<le> x"
    unfolding e pow2_nat .
  have "n + 1 \<le> 2 ^ bit_length n" using b(2) by simp
  then have "real (n + 1) \<le> real (2 ^ bit_length n)"
    by (rule iffD2 [OF of_nat_le_iff])
  then have "real n + 1 \<le> (2::real) ^ bit_length n"
    by (simp only: of_nat_power of_nat_numeral of_nat_add of_nat_1)
  then have "x < (2::real) ^ bit_length n"
    using n(3) by linarith
  then have hi: "x < pow2 (ilog2 x + 1)"
    unfolding e1 pow2_nat .
  from lo hi show ?thesis ..
next
  case False
  then have x1: "x < 1" by simp
  define c where "c = \<lceil>1 / x\<rceil>"
  define m where "m = nat (c - 1)"
  have inv: "1 < 1 / x" using assms x1 by simp
  have c: "1 / x \<le> of_int c" "of_int c - 1 < 1 / x"
    unfolding c_def by linarith+
  have c2: "2 \<le> c" using inv c(1) by linarith
  have m: "0 < m" "real m = of_int c - 1"
    using c2 by (auto simp: m_def)
  from bit_length_bounds [OF m(1)]
  have b: "2 ^ (bit_length m - 1) \<le> m" "m < 2 ^ bit_length m" by auto
  have bpos: "0 < bit_length m"
    using m(1) by (subst bit_length.simps) simp
  have e: "ilog2 x = - int (bit_length m)"
    using False by (simp add: ilog2_def m_def c_def)
  have "m + 1 \<le> 2 ^ bit_length m" using b(2) by simp
  then have "real (m + 1) \<le> real (2 ^ bit_length m)"
    by (rule iffD2 [OF of_nat_le_iff])
  then have "real m + 1 \<le> (2::real) ^ bit_length m"
    by (simp only: of_nat_power of_nat_numeral of_nat_add of_nat_1)
  then have "1 / x \<le> 2 ^ bit_length m"
    using c(1) m(2) by linarith
  then have "1 \<le> 2 ^ bit_length m * x"
    using assms by (simp add: field_simps)
  then have lo: "pow2 (ilog2 x) \<le> x"
    unfolding e pow2_neg_nat by (simp add: field_simps)
  have "real (2 ^ (bit_length m - 1)) \<le> real m"
    using b(1) by (rule iffD2 [OF of_nat_le_iff])
  then have "(2::real) ^ (bit_length m - 1) \<le> real m"
    by (simp only: of_nat_power of_nat_numeral)
  then have "2 ^ (bit_length m - 1) < 1 / x"
    using c(2) m(2) by linarith
  then have lt: "2 ^ (bit_length m - 1) * x < 1"
    using assms by (simp add: field_simps)
  have e1: "ilog2 x + 1 = - int (bit_length m - 1)"
    using e bpos by simp
  have hi: "x < pow2 (ilog2 x + 1)"
    unfolding e1 pow2_neg_nat using lt by (simp add: field_simps)
  from lo hi show ?thesis ..
qed

lemma rint_error: "\<bar>of_int (rint z) - z\<bar> \<le> 1 / 2"
  unfolding rint_def Let_def by (auto simp: abs_if) linarith+

lemma rint_unique:
  assumes "\<bar>z - of_int n\<bar> < 1 / 2"
  shows "rint z = n"
proof -
  have "\<bar>of_int (rint z) - z\<bar> \<le> 1 / 2" by (rule rint_error)
  with assms have "\<bar>real_of_int (rint z) - of_int n\<bar> < 1" by linarith
  then have "\<bar>rint z - n\<bar> < 1"
    by (metis of_int_diff of_int_abs of_int_less_1_iff)
  then show ?thesis by simp
qed

lemma rint_of_int [simp]: "rint (of_int k) = k"
  by (rule rint_unique) simp

lemma scaled_error:
  assumes "0 < (q::real)" and "\<bar>a - r / q\<bar> \<le> 1 / 2"
  shows "\<bar>a * q - r\<bar> \<le> q / 2"
proof -
  have "q \<noteq> 0" using assms(1) by simp
  then have "a * q - r = (a - r / q) * q"
    by (simp add: left_diff_distrib)
  then have "\<bar>a * q - r\<bar> = \<bar>a - r / q\<bar> * q"
    using assms(1) by (simp add: abs_mult)
  also have "\<dots> \<le> 1 / 2 * q"
    using assms by (intro mult_right_mono) simp_all
  finally show ?thesis by simp
qed

lemma quantum_pos: "0 < quantum r"
  by (simp add: quantum_def pow2_pos)

lemma quantum_normal:
  assumes "pow2 (- 1022) \<le> \<bar>r\<bar>"
  shows "quantum r \<le> \<bar>r\<bar> / 2 ^ 52"
proof -
  have pos: "0 < \<bar>r\<bar>" using assms pow2_pos [of "- 1022"] by linarith
  from ilog2_bounds [OF pos]
  have b: "pow2 (ilog2 \<bar>r\<bar>) \<le> \<bar>r\<bar>" "\<bar>r\<bar> < pow2 (ilog2 \<bar>r\<bar> + 1)" by auto
  have "- 1022 < ilog2 \<bar>r\<bar> + 1"
  proof (rule ccontr)
    assume "\<not> - 1022 < ilog2 \<bar>r\<bar> + 1"
    then have "pow2 (ilog2 \<bar>r\<bar> + 1) \<le> pow2 (- 1022)" by (intro pow2_mono) simp
    with b(2) assms show False by linarith
  qed
  then have "max (ilog2 \<bar>r\<bar>) (- 1022) = ilog2 \<bar>r\<bar>" by simp
  then have "quantum r = pow2 (ilog2 \<bar>r\<bar>) / pow2 52"
    by (simp add: quantum_def pow2_diff)
  also have "\<dots> \<le> \<bar>r\<bar> / pow2 52"
    using b(1) pow2_pos [of 52] by (simp add: divide_right_mono)
  finally show ?thesis by (simp add: pow2_def)
qed

lemma quantum_bound:
  assumes "r \<noteq> 0"
  shows "quantum r \<le> max (\<bar>r\<bar> / 2 ^ 52) (pow2 (- 1074))"
proof (cases "pow2 (- 1022) \<le> \<bar>r\<bar>")
  case True
  from quantum_normal [OF this] show ?thesis by simp
next
  case False
  have "ilog2 \<bar>r\<bar> \<le> - 1022"
  proof (rule ccontr)
    assume "\<not> ilog2 \<bar>r\<bar> \<le> - 1022"
    then have "pow2 (- 1022) \<le> pow2 (ilog2 \<bar>r\<bar>)" by (intro pow2_mono) simp
    moreover have "pow2 (ilog2 \<bar>r\<bar>) \<le> \<bar>r\<bar>"
      using ilog2_bounds [of "\<bar>r\<bar>"] assms by simp
    ultimately show False using False by linarith
  qed
  then have "max (ilog2 \<bar>r\<bar>) (- 1022) = - 1022" by simp
  then have "quantum r = pow2 (- 1074)" by (simp add: quantum_def)
  then show ?thesis by simp
qed

lemma fl_nonzero:
  assumes "r \<noteq> 0"
  shows "fl r =
     (if 2 ^ 1024 \<le> \<bar>of_int (rint (r / quantum r)) * quantum r\<bar>
      then (if 0 < r then PosInf else NegInf)
      else Num (of_int (rint (r / quantum r)) * quantum r))"
  using assms by (simp add: fl_def Let_def)

lemma fl_zero [simp]: "fl 0 = Num 0"
  by (simp add: fl_def)

lemma nearest_error: "\<bar>of_int (rint (r / quantum r)) * quantum r - r\<bar> \<le> quantum r / 2"
  using quantum_pos rint_error by (rule scaled_error)

lemma fl_error:
  assumes "fl r = Num y"
  shows "\<bar>y - r\<bar> \<le> quantum r / 2"
proof (cases "r = 0")
  case True
  with assms show ?thesis using quantum_pos [of r] by simp
next
  case False
  with assms have "y = of_int (rint (r / quantum r)) * quantum r"
    by (auto simp: fl_nonzero split: if_splits)
  then show ?thesis using nearest_error [of r] by simp
qed

lemma fl_finite:
  assumes "\<bar>r\<bar> \<le> 2 ^ 1000"
  shows "\<exists>y. fl r = Num y"
proof (cases "r = 0")
  case True
  then show ?thesis by simp
next
  case False
  define y where "y = of_int (rint (r / quantum r)) * quantum r"
  have err: "\<bar>y - r\<bar> \<le> quantum r / 2"
    unfolding y_def by (rule nearest_error)
  have "quantum r \<le> max (\<bar>r\<bar> / 2 ^ 52) (pow2 (- 1074))"
    using False by (rule quantum_bound)
  moreover have "\<bar>r\<bar> / 2 ^ 52 \<le> \<bar>r\<bar>" by (simp add: field_simps)
  moreover have "pow2 (- 1074) \<le> 1" by (simp add: pow2_def field_simps)
  ultimately have "quantum r \<le> 2 ^ 1000" using assms by (simp add: max_def split: if_splits)
  with err assms have "\<bar>y\<bar> \<le> 2 ^ 1000 + 2 ^ 1000" by linarith
  then have "\<bar>y\<bar> < 2 ^ 1024" by simp
  then show ?thesis using False by (simp add: fl_nonzero y_def)
qed

lemma fl_overflow:
  assumes "2 ^ 1024 \<le> \<bar>r\<bar>"
  shows "fl r = (if 0 < r then PosInf else NegInf)"
proof -
  have nz: "r \<noteq> 0" using assms by auto
  then have pos: "0 < \<bar>r\<bar>" by simp
  define e where "e = ilog2 \<bar>r\<bar>"
  from ilog2_bounds [OF pos]
  have b: "pow2 e \<le> \<bar>r\<bar>" "\<bar>r\<bar> < pow2 (e + 1)" by (auto simp: e_def)
  have e: "1024 \<le> e"
  proof (rule ccontr)
    assume "\<not> 1024 \<le> e"
    then have "pow2 (e + 1) \<le> pow2 1024" by (intro pow2_mono) simp
    with b(2) assms show False by (simp add: pow2_def)
  qed
  then have q: "quantum r = pow2 (e - 52)"
    by (simp add: quantum_def e_def)
  define z where "z = r / quantum r"
  have zabs: "2 ^ 52 \<le> \<bar>z\<bar>"
  proof -
    have "pow2 52 * pow2 (e - 52) = pow2 e"
      using pow2_add [of 52 "e - 52"] by simp
    then have "2 ^ 52 * quantum r \<le> \<bar>r\<bar>"
      using b(1) q by (simp add: pow2_def)
    then show ?thesis
      using quantum_pos [of r] by (simp add: z_def field_simps)
  qed
  have "\<bar>of_int (rint z) - z\<bar> \<le> 1 / 2" by (rule rint_error)
  have rz: "2 ^ 52 \<le> \<bar>real_of_int (rint z)\<bar>"
  proof (cases "0 \<le> z")
    case True
    with zabs have "2 ^ 52 \<le> z" by simp
    then have "\<bar>z - of_int k\<bar> < 1 / 2 \<Longrightarrow> 2 ^ 52 - 1 < real_of_int k" for k by linarith
    have "2 ^ 52 - 1 < real_of_int (rint z)"
      using \<open>\<bar>of_int (rint z) - z\<bar> \<le> 1 / 2\<close> \<open>2 ^ 52 \<le> z\<close> by linarith
    then have "2 ^ 52 - 1 < rint z"
      by (metis (mono_tags) of_int_less_iff of_int_numeral of_int_power of_int_diff of_int_1)
    then have "2 ^ 52 \<le> rint z" by simp
    then have "real_of_int (2 ^ 52) \<le> real_of_int (rint z)" by (rule iffD2 [OF of_int_le_iff])
    then show ?thesis by simp
  next
    case False
    with zabs have "z \<le> - (2 ^ 52)" by simp
    then have "real_of_int (rint z) < - (2 ^ 52) + 1"
      using \<open>\<bar>of_int (rint z) - z\<bar> \<le> 1 / 2\<close> by linarith
    then have "rint z < - (2 ^ 52) + 1"
      by (metis (mono_tags) of_int_less_iff of_int_numeral of_int_power of_int_add of_int_minus of_int_1)
    then have "rint z \<le> - (2 ^ 52)" by simp
    then have "real_of_int (rint z) \<le> real_of_int (- (2 ^ 52))" by (rule iffD2 [OF of_int_le_iff])
    then show ?thesis by simp
  qed
  have "\<bar>of_int (rint z) * quantum r\<bar> = \<bar>real_of_int (rint z)\<bar> * quantum r"
    using quantum_pos [of r] by (simp add: abs_mult)
  also have "\<dots> \<ge> 2 ^ 52 * quantum r"
    using rz quantum_pos [of r] by (intro mult_right_mono) simp_all
  finally have "pow2 e \<le> \<bar>of_int (rint z) * quantum r\<bar>"
    using pow2_add [of 52 "e - 52"] q by (simp add: pow2_def)
  moreover have "pow2 1024 \<le> pow2 e" using e by (rule pow2_mono)
  ultimately have "2 ^ 1024 \<le> \<bar>of_int (rint z) * quantum r\<bar>"
    by (simp add: pow2_def)
  then show ?thesis
    using nz by (simp add: fl_nonzero z_def)
qed


text \<open>The rounding to 6 decimals: where it is exact, where it is close, where it overflows.\<close>

lemma round6_Num:
  assumes "round6 x = Num v"
  shows "\<exists>y. fl (x * 1000000) = Num y \<and> fl (of_int (rint y) / 1000000) = Num v"
  using assms by (auto simp: round6_def split: cell.splits)

lemma normal_small: "pow2 (- 1022) \<le> 1 / 10 ^ 9"
  by (simp add: pow2_def field_simps)

lemma fl_relative:
  assumes "fl r = Num y" and "1 / 10 ^ 9 \<le> \<bar>r\<bar>"
  shows "\<bar>y - r\<bar> \<le> \<bar>r\<bar> / 2 ^ 53"
proof -
  have "pow2 (- 1022) \<le> \<bar>r\<bar>" using normal_small assms(2) by linarith
  from quantum_normal [OF this] fl_error [OF assms(1)] show ?thesis by simp
qed

lemma fl_threshold: "\<exists>b. fl (1 / 10 ^ 9) = Num b \<and> 0 < b"
proof -
  have "\<bar>1 / 10 ^ 9 :: real\<bar> \<le> 2 ^ 1000" by simp
  from fl_finite [OF this] obtain b where b: "fl (1 / 10 ^ 9) = Num b" by blast
  have "\<bar>b - 1 / 10 ^ 9\<bar> \<le> \<bar>1 / 10 ^ 9\<bar> / 2 ^ 53"
    using b by (rule fl_relative) simp
  moreover have "\<bar>1 / 10 ^ 9 :: real\<bar> / 2 ^ 53 < 1 / 10 ^ 9" by simp
  ultimately have "0 < b" by linarith
  with b show ?thesis by blast
qed

lemma division_of_small_int:
  assumes "fl (of_int n / 1000000) = Num v"
  shows "\<bar>v * 1000000 - of_int n\<bar> \<le> \<bar>real_of_int n\<bar> / 2 ^ 53"
proof (cases "n = 0")
  case True
  with assms show ?thesis by simp
next
  case False
  then have "1 \<le> \<bar>n\<bar>" by simp
  then have "1 \<le> \<bar>real_of_int n\<bar>"
    by (metis of_int_abs of_int_1_le_iff)
  then have "1 / 10 ^ 9 \<le> \<bar>real_of_int n / 1000000\<bar>" by simp
  from fl_relative [OF assms this]
  have "\<bar>v - of_int n / 1000000\<bar> \<le> \<bar>real_of_int n / 1000000\<bar> / 2 ^ 53" .
  then have "\<bar>v - of_int n / 1000000\<bar> * 1000000 \<le> \<bar>real_of_int n / 1000000\<bar> / 2 ^ 53 * 1000000"
    by (intro mult_right_mono) simp_all
  moreover have "(v - of_int n / 1000000) * 1000000 = v * 1000000 - of_int n"
    by (simp add: left_diff_distrib)
  then have "\<bar>v * 1000000 - of_int n\<bar> = \<bar>v - of_int n / 1000000\<bar> * 1000000"
    by (metis abs_mult abs_numeral)
  ultimately show ?thesis by simp
qed

lemma round6_fixed:
  assumes "\<bar>n\<bar> \<le> 2 ^ 50" and "fl (of_int n / 1000000) = Num v"
  shows "round6 v = Num v"
proof -
  define z where "z = v * 1000000"
  have nb: "\<bar>real_of_int n\<bar> \<le> 2 ^ 50"
    using assms(1) by (metis of_int_abs of_int_le_iff of_int_numeral of_int_power)
  have zn: "\<bar>z - of_int n\<bar> \<le> \<bar>real_of_int n\<bar> / 2 ^ 53"
    unfolding z_def using assms(2) by (rule division_of_small_int)
  then have zn': "\<bar>z - of_int n\<bar> \<le> 1 / 8"
    using nb by simp
  have "(2::real) ^ 51 = 2 * 2 ^ 50" "(1::real) \<le> 2 ^ 50" by simp_all
  with zn' nb have zb: "\<bar>z\<bar> \<le> 2 ^ 51" by linarith
  then have "\<bar>z\<bar> \<le> 2 ^ 1000" by simp
  from fl_finite [OF this] obtain y where y: "fl z = Num y" by blast
  have "\<bar>y - z\<bar> \<le> 1 / 4"
  proof (cases "z = 0")
    case True
    with y show ?thesis by simp
  next
    case False
    from quantum_bound [OF this] have "quantum z \<le> max (\<bar>z\<bar> / 2 ^ 52) (pow2 (- 1074))" .
    moreover have "\<bar>z\<bar> / 2 ^ 52 \<le> 1 / 2" using zb by simp
    moreover have "pow2 (- 1074) \<le> 1 / 2" by (simp add: pow2_def field_simps)
    ultimately have "quantum z \<le> 1 / 2" by (simp add: max_def split: if_splits)
    with fl_error [OF y] show ?thesis by simp
  qed
  with zn' have "\<bar>y - of_int n\<bar> < 1 / 2" by linarith
  then have "rint y = n" by (rule rint_unique)
  with y assms(2) show ?thesis
    by (simp add: round6_def z_def)
qed

lemma round6_small_int:
  assumes "round6 x = Num v" and "\<bar>v\<bar> \<le> 10 ^ 9"
  shows "\<exists>n. \<bar>n\<bar> \<le> 2 ^ 50 \<and> fl (of_int n / 1000000) = Num v"
proof -
  from round6_Num [OF assms(1)] obtain y
    where v: "fl (of_int (rint y) / 1000000) = Num v" by blast
  define n where "n = rint y"
  from division_of_small_int [OF v]
  have d: "\<bar>v * 1000000 - of_int n\<bar> \<le> \<bar>real_of_int n\<bar> / 2 ^ 53" by (simp add: n_def)
  have "\<bar>v * 1000000\<bar> \<le> 10 ^ 15" using assms(2) by (simp add: abs_mult)
  with d have "\<bar>real_of_int n\<bar> - \<bar>real_of_int n\<bar> / 2 ^ 53 \<le> 10 ^ 15" by linarith
  then have "\<bar>real_of_int n\<bar> \<le> 2 ^ 50" by simp
  then have "\<bar>n\<bar> \<le> 2 ^ 50"
    by (metis of_int_abs of_int_le_iff of_int_numeral of_int_power)
  with v show ?thesis unfolding n_def by blast
qed

lemma round6_idempotent:
  assumes "round6 x = Num v" and "\<bar>v\<bar> \<le> 10 ^ 9"
  shows "round6 v = Num v"
  using round6_small_int [OF assms] round6_fixed by blast

lemma fixed_within_noise:
  assumes "round6 v = Num v"
  shows "within_rounding_noise (Num v)"
  using assms fl_threshold by (auto simp: within_rounding_noise_def)

lemma round6_close:
  assumes "round6 x = Num v" and "\<bar>x\<bar> \<le> 10 ^ 9"
  shows "\<bar>v - x\<bar> < 1 / 10 ^ 6"
proof -
  from round6_Num [OF assms(1)] obtain y where y: "fl (x * 1000000) = Num y"
    and v: "fl (of_int (rint y) / 1000000) = Num v" by blast
  define n where "n = rint y"
  have xb: "\<bar>x * 1000000\<bar> \<le> 10 ^ 15" using assms(2) by (simp add: abs_mult)
  have yx: "\<bar>y - x * 1000000\<bar> \<le> 1 / 8"
  proof (cases "x * 1000000 = 0")
    case True
    with y show ?thesis by simp
  next
    case False
    from quantum_bound [OF this]
    have "quantum (x * 1000000) \<le> max (\<bar>x * 1000000\<bar> / 2 ^ 52) (pow2 (- 1074))" .
    moreover have "\<bar>x * 1000000\<bar> / 2 ^ 52 \<le> 1 / 4" using xb by simp
    moreover have "pow2 (- 1074) \<le> 1 / 4" by (simp add: pow2_def field_simps)
    ultimately have "quantum (x * 1000000) \<le> 1 / 4" by (simp add: max_def split: if_splits)
    with fl_error [OF y] show ?thesis by simp
  qed
  have ny: "\<bar>of_int n - y\<bar> \<le> 1 / 2" unfolding n_def by (rule rint_error)
  from division_of_small_int [OF v]
  have d: "\<bar>v * 1000000 - of_int n\<bar> \<le> \<bar>real_of_int n\<bar> / 2 ^ 53" by (simp add: n_def)
  have "\<bar>real_of_int n\<bar> \<le> 10 ^ 15 + 1" using ny yx xb by linarith
  then have "\<bar>real_of_int n\<bar> / 2 ^ 53 \<le> 1 / 8" by simp
  with d ny yx have "\<bar>v * 1000000 - x * 1000000\<bar> \<le> 3 / 4" by linarith
  moreover have "v * 1000000 - x * 1000000 = (v - x) * 1000000"
    by (simp add: left_diff_distrib)
  then have "\<bar>v * 1000000 - x * 1000000\<bar> = \<bar>v - x\<bar> * 1000000"
    by (metis abs_mult abs_numeral)
  ultimately have "\<bar>v - x\<bar> * 1000000 \<le> 3 / 4" by simp
  then show ?thesis by simp
qed


lemma round6_finite:
  assumes "\<bar>x\<bar> \<le> 10 ^ 9"
  shows "\<exists>v. round6 x = Num v"
proof -
  have xb: "\<bar>x * 1000000\<bar> \<le> 10 ^ 15" using assms by (simp add: abs_mult)
  then have "\<bar>x * 1000000\<bar> \<le> 2 ^ 1000" by simp
  from fl_finite [OF this] obtain y where y: "fl (x * 1000000) = Num y" by blast
  have yx: "\<bar>y - x * 1000000\<bar> \<le> 1"
  proof (cases "x * 1000000 = 0")
    case True
    with y show ?thesis by simp
  next
    case False
    from quantum_bound [OF this]
    have "quantum (x * 1000000) \<le> max (\<bar>x * 1000000\<bar> / 2 ^ 52) (pow2 (- 1074))" .
    moreover have "\<bar>x * 1000000\<bar> / 2 ^ 52 \<le> 1" using xb by simp
    moreover have "pow2 (- 1074) \<le> 1" by (simp add: pow2_def field_simps)
    ultimately have "quantum (x * 1000000) \<le> 1" by (simp add: max_def split: if_splits)
    with fl_error [OF y] show ?thesis by simp
  qed
  have "\<bar>of_int (rint y) - y\<bar> \<le> 1 / 2" by (rule rint_error)
  with yx xb have "\<bar>real_of_int (rint y)\<bar> \<le> 10 ^ 15 + 2" by linarith
  then have "\<bar>real_of_int (rint y) / 1000000\<bar> \<le> 2 ^ 1000" by simp
  from fl_finite [OF this] obtain v where "fl (of_int (rint y) / 1000000) = Num v" by blast
  with y show ?thesis by (simp add: round6_def)
qed

lemma round6_stable:
  assumes "round6 x = Num v" and "\<bar>x\<bar> \<le> 10 ^ 9"
  shows "round6 v = Num v"
proof -
  from round6_Num [OF assms(1)] obtain y where y: "fl (x * 1000000) = Num y"
    and v: "fl (of_int (rint y) / 1000000) = Num v" by blast
  have xb: "\<bar>x * 1000000\<bar> \<le> 10 ^ 15" using assms(2) by (simp add: abs_mult)
  have yx: "\<bar>y - x * 1000000\<bar> \<le> 1"
  proof (cases "x * 1000000 = 0")
    case True
    with y show ?thesis by simp
  next
    case False
    from quantum_bound [OF this]
    have "quantum (x * 1000000) \<le> max (\<bar>x * 1000000\<bar> / 2 ^ 52) (pow2 (- 1074))" .
    moreover have "\<bar>x * 1000000\<bar> / 2 ^ 52 \<le> 1" using xb by simp
    moreover have "pow2 (- 1074) \<le> 1" by (simp add: pow2_def field_simps)
    ultimately have "quantum (x * 1000000) \<le> 1" by (simp add: max_def split: if_splits)
    with fl_error [OF y] show ?thesis by simp
  qed
  have "\<bar>of_int (rint y) - y\<bar> \<le> 1 / 2" by (rule rint_error)
  with yx xb have "\<bar>real_of_int (rint y)\<bar> \<le> 10 ^ 15 + 2" by linarith
  then have "\<bar>real_of_int (rint y)\<bar> \<le> 2 ^ 50" by simp
  then have "\<bar>rint y\<bar> \<le> 2 ^ 50"
    by (metis of_int_abs of_int_le_iff of_int_numeral of_int_power)
  from this v show ?thesis by (rule round6_fixed)
qed

lemma round6_overflow:
  assumes "2 ^ 1024 \<le> \<bar>x\<bar> * 1000000"
  shows "round6 x = (if 0 < x then PosInf else NegInf)"
proof -
  have "2 ^ 1024 \<le> \<bar>x * 1000000\<bar>" using assms by (simp add: abs_mult)
  from fl_overflow [OF this] show ?thesis
    by (simp add: round6_def zero_less_mult_iff)
qed

lemma round6_large: "round6 (2 ^ 1010) = PosInf"
  using round6_overflow [of "2 ^ 1010"] by simp

lemma noise_of_missing:
  "\<not> within_rounding_noise NaN" "\<not> within_rounding_noise PosInf"
  "\<not> within_rounding_noise NegInf"
  by (simp_all add: within_rounding_noise_def)

lemma large_lines:
  "summary_lines_of_rule example_env example_raw_large sb_rule_foo =
     Inr [(YStr ''A'', ''foo'', ''mean'', PosInf)]"
  using round6_large by (simp add: table_defs example_raw_large_def sb_rule_foo_def)

lemma reduce_columns_value:
  assumes "reduce_columns t val f d cs = Inr ser" and "m \<in> set cs"
  shows "cell_at ser m = f (usable d m) \<and> usable d m \<noteq> []"
  using assms
proof (induction cs arbitrary: ser)
  case Nil
  then show ?case by simp
next
  case (Cons c cs)
  then show ?case
    by (auto simp: cell_at_def split: if_splits sum.splits)
qed

lemma reduce_columns_empty:
  assumes "c \<in> set cs" and "usable d c = []"
  shows "\<exists>c'. c' \<in> set cs \<and> usable d c' = [] \<and>
           reduce_columns t val f d cs = Inl (EmptyColumnReduction c' t val)"
  using assms
proof (induction cs)
  case Nil
  then show ?case by simp
next
  case (Cons a cs)
  show ?case
  proof (cases "usable d a = []")
    case True
    then show ?thesis by (intro exI [of _ a]) simp
  next
    case False
    with Cons.prems have "c \<in> set cs" by auto
    from Cons.IH [OF this Cons.prems(2)] False show ?thesis by auto
  qed
qed

lemma spec_summary_row:
  assumes "summary_row (spec_env reg agg re) d s = Inr ser"
  shows "\<exists>t val f. map_of reg t = Some f \<and>
           reduce_columns t val (f val) d (df_columns d) = Inr ser"
  using assms
  by (auto simp: summary_row_def spec_env_def SummaryType_def registry_func_def
      split: if_splits sum.splits option.splits)

text \<open>
  Claim C8, as amended. Every value \<open>v\<close> of a summary line is \<open>round(6)\<close> of the value
  that the reducer of the line's statistic returned for the line's metric (NaN for a
  column that the reducer left out). When the reducer returned a finite number \<open>x\<close>,
  \<open>v\<close> is the double nearest to \<open>n / 10^6\<close>, for the integer \<open>n\<close> nearest to the double
  of \<open>x * 10^6\<close>. For \<open>x\<close> of magnitude at most \<open>10^9\<close>, \<open>v\<close> is a finite number less
  than \<open>10^-6\<close> away from \<open>x\<close>, rounding it again returns it, and the test
  \<open>abs(v - round(v, 6)) < 1e-9\<close> holds. When \<open>x * 10^6\<close> reaches \<open>2^1024\<close>, \<open>v\<close> is an
  infinity and the test fails. The test holds for every finite \<open>v\<close> of a line of
  magnitude at most \<open>10^9\<close>, and it fails for NaN and for the infinities.
\<close>

theorem emitted_values_are_rounded:
  assumes "summary_lines_of_rule e raw r = Inr summary_lines"
    and "(c, m, s, v) \<in> set summary_lines"
  shows "\<exists>d ser. data_df_of_rule e raw r = Inr d \<and> summary_row e d s = Inr ser \<and>
           v = round_cell (cell_at ser m) \<and>
           (\<forall>x. cell_at ser m = Num x \<longrightarrow>
              v = (case fl (x * 1000000) of
                     Num y \<Rightarrow> fl (of_int (rint y) / 1000000)
                   | c \<Rightarrow> c) \<and>
              (\<bar>x\<bar> \<le> 10 ^ 9 \<longrightarrow>
                 (\<exists>w. v = Num w \<and> \<bar>w - x\<bar> < 1 / 10 ^ 6) \<and>
                 round_cell v = v \<and> within_rounding_noise v) \<and>
              (2 ^ 1024 \<le> \<bar>x\<bar> * 1000000 \<longrightarrow>
                 v = (if 0 < x then PosInf else NegInf) \<and> \<not> within_rounding_noise v)) \<and>
           (\<forall>w. v = Num w \<and> \<bar>w\<bar> \<le> 10 ^ 9 \<longrightarrow>
              round_cell v = v \<and> within_rounding_noise v) \<and>
           \<not> within_rounding_noise NaN \<and> \<not> within_rounding_noise PosInf \<and>
           \<not> within_rounding_noise NegInf"
proof -
  from assms(1) obtain d sts tbl where d: "data_df_of_rule e raw r = Inr d"
    and tbl: "statistics_loop e d (sort (df_columns d)) sts [] = Inr tbl"
    and l: "summary_lines =
        format_summary_of_rule (sr_categories r) (sort (df_columns d)) (round_table tbl)"
    by (auto simp: summary_lines_of_rule_def split: sum.splits)
  from assms(2) l format_lines obtain row where m: "m \<in> set (sort (df_columns d))"
    and row: "(s, row) \<in> set tbl" and v: "v = cell_at (map (\<lambda>(c, v). (c, round_cell v)) row) m"
    by blast
  from statistics_loop_rows [OF tbl] row obtain ser where ser: "summary_row e d s = Inr ser"
    and r: "row = reindex (sort (df_columns d)) ser"
    by fastforce
  have v': "v = round_cell (cell_at ser m)"
    using v r m by (simp add: cell_at_rounded)
  have formula: "v = (case fl (x * 1000000) of
                     Num y \<Rightarrow> fl (of_int (rint y) / 1000000)
                   | c \<Rightarrow> c)" if "cell_at ser m = Num x" for x
    using v' that by (simp add: round6_def)
  have small: "(\<exists>w. v = Num w \<and> \<bar>w - x\<bar> < 1 / 10 ^ 6) \<and>
                 round_cell v = v \<and> within_rounding_noise v"
    if x: "cell_at ser m = Num x" and b: "\<bar>x\<bar> \<le> 10 ^ 9" for x
  proof -
    from round6_finite [OF b] obtain w where w: "round6 x = Num w" by blast
    have "\<bar>w - x\<bar> < 1 / 10 ^ 6" using w b by (rule round6_close)
    moreover have "round6 w = Num w" using w b by (rule round6_stable)
    moreover from this have "within_rounding_noise (Num w)" by (rule fixed_within_noise)
    ultimately show ?thesis using v' x w by simp
  qed
  have large: "v = (if 0 < x then PosInf else NegInf) \<and> \<not> within_rounding_noise v"
    if x: "cell_at ser m = Num x" and b: "2 ^ 1024 \<le> \<bar>x\<bar> * 1000000" for x
    using v' x round6_overflow [OF b] noise_of_missing by simp
  have fixed: "round_cell v = v \<and> within_rounding_noise v"
    if w: "v = Num w" and b: "\<bar>w\<bar> \<le> 10 ^ 9" for w
  proof -
    from v' w obtain x where "round6 x = Num w"
      by (cases "cell_at ser m") auto
    from this b have "round6 w = Num w" by (rule round6_idempotent)
    with w fixed_within_noise show ?thesis by simp
  qed
  show ?thesis
    using d ser v' formula small large fixed noise_of_missing
    by (intro exI [of _ d] exI [of _ ser]) blast
qed

theorem emitted_values_are_rounded_witness:
  "summary_lines_of_rule example_env example_raw sb_rule_r1 =
     Inr [(YStr ''A'', ''bar'', ''mean'', Num 3), (YStr ''A'', ''foo'', ''mean'', Num 2)] \<and>
   (YStr ''A'', ''bar'', ''mean'', Num 3) \<in>
     set [(YStr ''A'', ''bar'', ''mean'', Num 3), (YStr ''A'', ''foo'', ''mean'', Num 2)] \<and>
   \<bar>3 :: real\<bar> \<le> 10 ^ 9 \<and> round_cell (Num 3) = Num 3 \<and> within_rounding_noise (Num 3) \<and>
   summary_lines_of_rule example_env example_raw_large sb_rule_foo =
     Inr [(YStr ''A'', ''foo'', ''mean'', PosInf)] \<and>
   (YStr ''A'', ''foo'', ''mean'', PosInf) \<in> set [(YStr ''A'', ''foo'', ''mean'', PosInf)] \<and>
   (\<exists>d ser. data_df_of_rule example_env example_raw_large sb_rule_foo = Inr d \<and>
      summary_row example_env d ''mean'' = Inr ser \<and> PosInf = round_cell (cell_at ser ''foo''))"
proof -
  have mem: "(YStr ''A'', ''bar'', ''mean'', Num 3) \<in>
     set [(YStr ''A'', ''bar'', ''mean'', Num 3), (YStr ''A'', ''foo'', ''mean'', Num 2)]"
    by simp
  have b: "\<bar>3 :: real\<bar> \<le> 10 ^ 9" by simp
  from emitted_values_are_rounded [OF r1_lines mem] b
  have small: "round_cell (Num 3) = Num 3 \<and> within_rounding_noise (Num 3)"
    by blast
  have mem': "(YStr ''A'', ''foo'', ''mean'', PosInf) \<in>
     set [(YStr ''A'', ''foo'', ''mean'', PosInf)]"
    by simp
  from emitted_values_are_rounded [OF large_lines mem']
  have large: "\<exists>d ser. data_df_of_rule example_env example_raw_large sb_rule_foo = Inr d \<and>
      summary_row example_env d ''mean'' = Inr ser \<and> PosInf = round_cell (cell_at ser ''foo'')"
    by blast
  from r1_lines mem b small large_lines mem' large show ?thesis
    by blast
qed

text \<open>
  The claim as stated fails on the raw table whose only value is the double \<open>2 ^ 1010\<close>:
  its mean is that number, a finite one, and the value of the line is not that number
  rounded to 6 decimals but an infinity, because the product with \<open>10^6\<close> leaves the
  range of the doubles. For that value the test \<open>abs(v - round(v, 6)) < 1e-9\<close> fails. On
  numbers of ordinary size the rounding is that of the doubles: the double nearest to
  \<open>1.0587565\<close> becomes the double nearest to \<open>1.058756\<close>.
\<close>

theorem overflowing_value_is_emitted_as_infinity:
  "summary_lines_of_rule example_env example_raw_large sb_rule_foo =
     Inr [(YStr ''A'', ''foo'', ''mean'', PosInf)] \<and>
   mean (usable example_raw_large ''foo'') = Num (2 ^ 1010) \<and>
   \<not> within_rounding_noise PosInf \<and>
   round_cell (fl (10587565 / 10000000)) = fl (1058756 / 1000000)"
proof -
  have "mean (usable example_raw_large ''foo'') = Num (2 ^ 1010)"
    by (simp add: usable_def example_raw_large_def cell_at_def mean_def finite_value_def)
  moreover have "round_cell (fl (10587565 / 10000000)) = fl (1058756 / 1000000)"
    by (simp add: fl_eval)
  ultimately show ?thesis
    using large_lines noise_of_missing by simp
qed

section \<open>Reducing a column without data\<close>

lemma generate_loop_fails:
  assumes "r \<in> set rs" and "summary_lines_of_rule e raw r = Inl err"
  shows "\<exists>err'. generate_loop e raw rs summary = Inl err'"
  using assms
proof (induction rs arbitrary: summary)
  case Nil
  then show ?case by simp
next
  case (Cons a rs)
  then show ?case
    by (cases "a = r") (auto split: sum.splits)
qed

lemma spec_summary_row_empty:
  assumes "c \<in> set (df_columns d)" and "usable d c = []"
  shows "\<exists>err. summary_row (spec_env reg agg re) d s = Inl err"
    and "\<not> startswith_p s \<Longrightarrow> map_of reg s = Some f \<Longrightarrow>
          \<exists>c'. c' \<in> set (df_columns d) \<and> usable d c' = [] \<and>
            summary_row (spec_env reg agg re) d s = Inl (EmptyColumnReduction c' s None)"
    and "startswith_p s \<Longrightarrow> map_of reg ''percentile'' = Some f \<Longrightarrow> py_int (strip_p s) = Some v \<Longrightarrow>
          \<exists>c'. c' \<in> set (df_columns d) \<and> usable d c' = [] \<and>
            summary_row (spec_env reg agg re) d s =
              Inl (EmptyColumnReduction c' ''percentile'' (Some v))"
proof -
  have red: "\<exists>c'. c' \<in> set (df_columns d) \<and> usable d c' = [] \<and>
           reduce_columns t val g d (df_columns d) = Inl (EmptyColumnReduction c' t val)" for t val g
    using assms by (rule reduce_columns_empty)
  have mem: "map_of reg t = Some g \<Longrightarrow> t \<in> set (map fst reg)" for t g
    by (metis map_of_SomeD fst_conv image_eqI set_map)
  show "\<exists>err. summary_row (spec_env reg agg re) d s = Inl err"
    using red
    by (auto simp: summary_row_def spec_env_def SummaryType_def registry_func_def
        split: option.splits) metis+
  show "\<exists>c'. c' \<in> set (df_columns d) \<and> usable d c' = [] \<and>
            summary_row (spec_env reg agg re) d s = Inl (EmptyColumnReduction c' s None)"
    if "\<not> startswith_p s" and "map_of reg s = Some f"
    using that red [of s None "f None"] mem [OF that(2)]
    by (simp add: summary_row_def spec_env_def SummaryType_def registry_func_def)
  show "\<exists>c'. c' \<in> set (df_columns d) \<and> usable d c' = [] \<and>
            summary_row (spec_env reg agg re) d s =
              Inl (EmptyColumnReduction c' ''percentile'' (Some v))"
    if "startswith_p s" and "map_of reg ''percentile'' = Some f" and "py_int (strip_p s) = Some v"
    using that red [of "''percentile''" "Some v" "f (Some v)"] mem [OF that(2)]
    by (simp add: summary_row_def spec_env_def SummaryType_def registry_func_def)
qed


text \<open>
  Claim C3, with the reducers as the specification describes them. When the table of a
  rule has a column without usable data and the rule lists at least one statistic, the
  rule yields no summary lines. When the first statistic is a registered name, the
  exception is \<open>EmptyColumnReduction\<close> for a column without usable data and that
  statistic (for a name starting with p: the percentile with its parameter). The
  exception leaves \<open>_generate_summary\<close>, which therefore returns no summary: no value
  is put in the place of the failed reduction.
\<close>

theorem empty_column_fails_with_EmptyColumnReduction:
  assumes "data_df_of_rule (spec_env reg agg re) raw r = Inr d"
    and "iterate (sr_statistics r) = Inr (st # sts)"
    and "c \<in> set (df_columns d)" and "usable d c = []"
  shows "(\<exists>err. summary_lines_of_rule (spec_env reg agg re) raw r = Inl err) \<and>
         (\<forall>s f. st = YStr s \<and> \<not> startswith_p s \<and> map_of reg s = Some f \<longrightarrow>
            (\<exists>c'. c' \<in> set (df_columns d) \<and> usable d c' = [] \<and>
               summary_lines_of_rule (spec_env reg agg re) raw r =
                 Inl (EmptyColumnReduction c' s None))) \<and>
         (\<forall>s f v. st = YStr s \<and> startswith_p s \<and> map_of reg ''percentile'' = Some f \<and>
              py_int (strip_p s) = Some v \<longrightarrow>
            (\<exists>c'. c' \<in> set (df_columns d) \<and> usable d c' = [] \<and>
               summary_lines_of_rule (spec_env reg agg re) raw r =
                 Inl (EmptyColumnReduction c' ''percentile'' (Some v)))) \<and>
         (r \<in> set (map snd (sb_rules self)) \<and> raw_data_df self = raw \<longrightarrow>
            (\<exists>err. generate_summary (spec_env reg agg re) self = Inl err))"
proof -
  let ?e = "spec_env reg agg re"
  have lines: "summary_lines_of_rule ?e raw r =
      (case statistics_loop ?e d (sort (df_columns d)) (st # sts) [] of
         Inl err \<Rightarrow> Inl err
       | Inr tbl \<Rightarrow> Inr (format_summary_of_rule (sr_categories r) (sort (df_columns d))
                          (round_table tbl)))"
    using assms(1,2) by (simp add: summary_lines_of_rule_def)
  have loop: "statistics_loop ?e d (sort (df_columns d)) (YStr s # sts) [] = Inl err"
    if "summary_row ?e d s = Inl err" for s err
    using that by simp
  have a: "\<exists>err. summary_lines_of_rule ?e raw r = Inl err"
  proof (cases st)
    case (YStr s)
    from spec_summary_row_empty(1) [OF assms(3,4)] obtain err
      where "summary_row ?e d s = Inl err" by blast
    from loop [OF this] YStr lines show ?thesis by simp
  qed (simp_all add: lines)
  have b: "\<exists>c'. c' \<in> set (df_columns d) \<and> usable d c' = [] \<and>
               summary_lines_of_rule ?e raw r = Inl (EmptyColumnReduction c' s None)"
    if "st = YStr s" and "\<not> startswith_p s" and "map_of reg s = Some f" for s f
  proof -
    from spec_summary_row_empty(2) [OF assms(3,4) that(2,3)] obtain c'
      where c': "c' \<in> set (df_columns d)" "usable d c' = []"
        and row: "summary_row ?e d s = Inl (EmptyColumnReduction c' s None)" by blast
    from loop [OF row] that(1) lines c' show ?thesis by auto
  qed
  have c: "\<exists>c'. c' \<in> set (df_columns d) \<and> usable d c' = [] \<and>
               summary_lines_of_rule ?e raw r =
                 Inl (EmptyColumnReduction c' ''percentile'' (Some v))"
    if "st = YStr s" and "startswith_p s" and "map_of reg ''percentile'' = Some f"
      and "py_int (strip_p s) = Some v" for s f v
  proof -
    from spec_summary_row_empty(3) [OF assms(3,4) that(2,3,4)] obtain c'
      where c': "c' \<in> set (df_columns d)" "usable d c' = []"
        and row: "summary_row ?e d s = Inl (EmptyColumnReduction c' ''percentile'' (Some v))"
      by blast
    from loop [OF row] that(1) lines c' show ?thesis by auto
  qed
  have g: "\<exists>err. generate_summary ?e self = Inl err"
    if "r \<in> set (map snd (sb_rules self))" and "raw_data_df self = raw"
  proof -
    from a obtain err where "summary_lines_of_rule ?e raw r = Inl err" by blast
    from generate_loop_fails [OF that(1) this] that(2) show ?thesis
      by (simp add: generate_summary_def)
  qed
  from a b c g show ?thesis by blast
qed

theorem empty_column_fails_with_EmptyColumnReduction_witness:
  "data_df_of_rule example_env example_raw_missing sb_rule_r1 = Inr example_raw_missing \<and>
   iterate (sr_statistics sb_rule_r1) = Inr (YStr ''mean'' # []) \<and>
   ''foo'' \<in> set (df_columns example_raw_missing) \<and> usable example_raw_missing ''foo'' = [] \<and>
   \<not> startswith_p ''mean'' \<and>
   summary_lines_of_rule example_env example_raw_missing sb_rule_r1 =
     Inl (EmptyColumnReduction ''foo'' ''mean'' None) \<and>
   data_df_of_rule example_env example_raw_missing sb_rule_p90 = Inr example_raw_missing \<and>
   iterate (sr_statistics sb_rule_p90) = Inr (YStr ''p90'' # []) \<and>
   startswith_p ''p90'' \<and> py_int (strip_p ''p90'') = Some 90 \<and>
   summary_lines_of_rule example_env example_raw_missing sb_rule_p90 =
     Inl (EmptyColumnReduction ''foo'' ''percentile'' (Some 90)) \<and>
   (\<exists>err. generate_summary example_env
      (new_analyzer\<lparr>sb_rules := [(''r1'', sb_rule_r1)], raw_data_df := example_raw_missing\<rparr>) =
      Inl err)"
proof -
  have d: "data_df_of_rule example_env example_raw_missing sb_rule_r1 = Inr example_raw_missing"
    by (simp add: eval_defs sb_rule_r1_def example_raw_missing_def)
  have i: "iterate (sr_statistics sb_rule_r1) = Inr (YStr ''mean'' # [])"
    by (simp add: sb_rule_r1_def)
  have d': "data_df_of_rule example_env example_raw_missing sb_rule_p90 = Inr example_raw_missing"
    by (simp add: eval_defs sb_rule_p90_def example_raw_missing_def)
  have i': "iterate (sr_statistics sb_rule_p90) = Inr (YStr ''p90'' # [])"
    by (simp add: sb_rule_p90_def)
  have p: "py_int (strip_p ''p90'') = Some 90"
    by (simp add: py_int_def strip_p_def strip_chars_def py_whitespace_def is_digit_def
        digit_val_def)
  have c: "''foo'' \<in> set (df_columns example_raw_missing)"
    by (simp add: example_raw_missing_def)
  have u: "usable example_raw_missing ''foo'' = []"
    by (simp add: usable_def example_raw_missing_def cell_at_def)
  have l: "summary_lines_of_rule example_env example_raw_missing sb_rule_r1 =
     Inl (EmptyColumnReduction ''foo'' ''mean'' None)"
    by (simp add: eval_defs sb_rule_r1_def example_raw_missing_def)
  have l': "summary_lines_of_rule example_env example_raw_missing sb_rule_p90 =
     Inl (EmptyColumnReduction ''foo'' ''percentile'' (Some 90))"
    by (simp add: eval_defs sb_rule_p90_def example_raw_missing_def p)
  have "\<exists>err. generate_summary example_env
      (new_analyzer\<lparr>sb_rules := [(''r1'', sb_rule_r1)], raw_data_df := example_raw_missing\<rparr>) =
      Inl err"
    using empty_column_fails_with_EmptyColumnReduction [OF d [unfolded example_env_def] i c u,
        of "new_analyzer\<lparr>sb_rules := [(''r1'', sb_rule_r1)], raw_data_df := example_raw_missing\<rparr>"]
    by (simp add: example_env_def)
  with d i d' i' p c u l l' show ?thesis
    by (simp add: startswith_p_def)
qed

section \<open>Two rules with the same category\<close>

text \<open>
  Claim C1. The source assigns \<open>summary[category] = summary_lines_of_rule\<close>, so a later
  rule with the same category replaces the lines of an earlier one. On the raw table of
  the scenario, with a rule for \<open>foo\<close> followed by a rule for \<open>bar\<close>, both of category
  \<open>A\<close>, each rule has one summary line, and the summary holds the line of \<open>bar\<close>
  only, from the parsed rule set and from the rule document through \<open>run\<close>: the line of
  \<open>foo\<close> is lost.
\<close>

theorem shared_category_keeps_last_rule_only:
  "summary_lines_of_rule example_env example_raw sb_rule_foo =
     Inr [(YStr ''A'', ''foo'', ''mean'', Num 2)] \<and>
   summary_lines_of_rule example_env example_raw sb_rule_bar =
     Inr [(YStr ''A'', ''bar'', ''mean'', Num 3)] \<and>
   generate_summary example_env
     (new_analyzer\<lparr>sb_rules := [(''r1'', sb_rule_foo), (''r2'', sb_rule_bar)],
                   raw_data_df := example_raw\<rparr>) =
     Inr [(YStr ''A'', [(YStr ''A'', ''bar'', ''mean'', Num 3)])] \<and>
   snd (run example_env new_analyzer
          (Inr (example_raw, Rules [(''r1'', rule_foo), (''r2'', rule_bar)])) ''md'') =
     Some (ToMd [(YStr ''A'', [(YStr ''A'', ''bar'', ''mean'', Num 3)])])"
proof -
  have f: "summary_lines_of_rule example_env example_raw sb_rule_foo =
     Inr [(YStr ''A'', ''foo'', ''mean'', Num 2)]"
    by (simp add: eval_defs sb_rule_foo_def)
  have b: "summary_lines_of_rule example_env example_raw sb_rule_bar =
     Inr [(YStr ''A'', ''bar'', ''mean'', Num 3)]"
    by (simp add: eval_defs sb_rule_bar_def)
  have g: "generate_summary example_env
     (new_analyzer\<lparr>sb_rules := [(''r1'', sb_rule_foo), (''r2'', sb_rule_bar)],
                   raw_data_df := example_raw\<rparr>) =
     Inr [(YStr ''A'', [(YStr ''A'', ''bar'', ''mean'', Num 3)])]"
    by (simp add: generate_summary_def new_analyzer_def f b) (simp add: sb_rule_foo_def sb_rule_bar_def)
  have r: "snd (run example_env new_analyzer
          (Inr (example_raw, Rules [(''r1'', rule_foo), (''r2'', rule_bar)])) ''md'') =
     Some (ToMd [(YStr ''A'', [(YStr ''A'', ''bar'', ''mean'', Num 3)])])"
    by (simp add: eval_defs rule_foo_def rule_bar_def)
  from f b g r show ?thesis by simp
qed

section \<open>Malformed records and missing files\<close>






end
